theory Spec2Isabelle
  imports Main
begin

section \<open>Values exchanged with the server\<close>

text \<open>
  Decoded JSON as the client reads it. Numbers are the integers: the only numbers the
  client looks at are ids, and the ids it allocates are JavaScript numbers counted up
  from 0, which the model takes as natural numbers (exact below \<open>2 ^ 53\<close>). An absent
  property (\<^verbatim>\<open>undefined\<close>) is \<open>None\<close> of \<open>json option\<close>.
\<close>

datatype json =
    JNull
  | JBool bool
  | JNum int
  | JStr string
  | JArr "json list"
  | JObj "(string \<times> json) list"

text \<open>Reading a property \<^verbatim>\<open>v.k\<close> of a value that is neither null nor undefined.\<close>

fun get_prop :: "json \<Rightarrow> string \<Rightarrow> json option" where
  "get_prop (JObj kvs) k = map_of kvs k"
| "get_prop _ k = None"

text \<open>JavaScript truthiness, as tested by \<^verbatim>\<open>if (message.error)\<close>.\<close>

fun truthy :: "json option \<Rightarrow> bool" where
  "truthy None = False"
| "truthy (Some JNull) = False"
| "truthy (Some (JBool b)) = b"
| "truthy (Some (JNum n)) = (n \<noteq> 0)"
| "truthy (Some (JStr s)) = (s \<noteq> [])"
| "truthy (Some (JArr xs)) = True"
| "truthy (Some (JObj kvs)) = True"

section \<open>The client's data\<close>

text \<open>The four connection states; \<open>Errored\<close> is the state \<^verbatim>\<open>'error'\<close>.\<close>

datatype ConnectionState = Disconnected | Connecting | Connected | Errored

datatype transport_kind = Websocket | HttpSse

datatype readyState = CONNECTING | OPEN | CLOSING | CLOSED

text \<open>
  The errors the client creates or passes on, one constructor per place that creates
  them: \<open>AlreadyConnected\<close> is \<^verbatim>\<open>new Error('Already connected')\<close>,
  \<open>ClientDisconnected\<close> is \<^verbatim>\<open>new Error('Client disconnected')\<close>,
  \<open>SseConnectionFailed\<close> is \<^verbatim>\<open>new Error('SSE connection failed')\<close>,
  \<open>HttpError status\<close> is \<^verbatim>\<open>new Error(`HTTP error: ${response.status}`)\<close>,
  \<open>ServerError m\<close> is \<^verbatim>\<open>new Error(message.error.message)\<close>,
  \<open>WebSocketNotConnected\<close> is \<^verbatim>\<open>new Error('WebSocket not connected')\<close>,
  \<open>RequestTimeout\<close> is \<^verbatim>\<open>new Error('Request timeout')\<close>.
  \<open>SocketError\<close>, \<open>FetchFailed\<close> and \<open>BodyNotJson\<close> are the errors of the socket,
  of \<^verbatim>\<open>fetch\<close> and of \<^verbatim>\<open>response.json()\<close>; \<open>TypeError\<close> is a property read on
  null or undefined.
\<close>

datatype failure =
    AlreadyConnected
  | ClientDisconnected
  | SseConnectionFailed
  | HttpError nat
  | ServerError "json option"
  | WebSocketNotConnected
  | RequestTimeout
  | SocketError
  | FetchFailed
  | BodyNotJson
  | TypeError

fun fixed_message :: "failure \<Rightarrow> string option" where
  "fixed_message AlreadyConnected = Some ''Already connected''"
| "fixed_message ClientDisconnected = Some ''Client disconnected''"
| "fixed_message SseConnectionFailed = Some ''SSE connection failed''"
| "fixed_message WebSocketNotConnected = Some ''WebSocket not connected''"
| "fixed_message RequestTimeout = Some ''Request timeout''"
| "fixed_message _ = None"

datatype outcome = Resolved "json option" | Rejected failure

text \<open>
  Timers of the runtime. A request's timer is named by the request's id (each call of
  \<^verbatim>\<open>request\<close> creates one timer, for the id it has just allocated); a reconnect timer
  by the serial number the runtime gave it.
\<close>

datatype timer = RequestTimer nat | ReconnectTimer nat

type_synonym McpRequest = "nat \<times> string \<times> json option"

datatype McpClientEvent =
    EvConnect
  | EvDisconnect string
  | EvError failure
  | EvNotification json
  | EvStateChange ConnectionState

text \<open>
  What a piece of client code does to the outside, in order: \<open>Emit\<close> is a call of
  \<^verbatim>\<open>this.emit\<close> (every handler registered for the event is invoked once, in
  registration order); \<open>NewRequest\<close> is the construction of a request envelope with a
  newly allocated id; \<open>Settle rid\<close> is a call of the \<^verbatim>\<open>resolve\<close> or \<^verbatim>\<open>reject\<close> of the
  promise that request \<open>rid\<close> returned.
\<close>

datatype effect =
    Emit McpClientEvent
  | NewRequest nat string "json option"
  | Settle nat outcome
  | SetTimeout timer nat
  | ClearTimeout timer
  | WsNew nat
  | WsSend nat McpRequest
  | WsClose nat
  | SseNew nat
  | SseClose nat
  | HttpPost McpRequest
  | ConsoleError
  | ConnectReturns json
  | ConnectThrows failure

record McpClientConfig =
  cfg_host :: string
  cfg_wsPort :: "nat option"
  cfg_httpPort :: "nat option"
  cfg_transport :: "transport_kind option"
  cfg_autoReconnect :: "bool option"
  cfg_reconnectInterval :: "nat option"
  cfg_timeout :: "nat option"

record RequiredConfig =
  host :: string
  wsPort :: nat
  httpPort :: nat
  transport :: transport_kind
  autoReconnect :: bool
  reconnectInterval :: nat
  timeout :: nat

text \<open>
  The fields of the class, followed by the part of the runtime the client's behaviour
  depends on: \<open>sockets\<close> holds the \<^verbatim>\<open>readyState\<close> of every WebSocket created so far
  (\<open>ws\<close> refers to one by its index), \<open>connecting\<close> are the sockets for which the
  promise of \<^verbatim>\<open>connectWebSocket\<close> has not settled, \<open>sources\<close> says for every EventSource created
  whether the promise of \<^verbatim>\<open>connectHttpSse\<close> for it has settled, \<open>timers\<close> are the timers
  set and neither cleared nor fired, \<open>timerSeq\<close> numbers the reconnect timers,
  \<open>inflight\<close> are the ids of the HTTP POSTs not yet answered, and \<open>handshakes\<close> the
  ids of the \<^verbatim>\<open>initialize\<close> requests that a call of \<^verbatim>\<open>connect\<close> is awaiting.
  \<open>pendingRequests\<close> lists the keys of the map in insertion order; the entry of a
  key is the promise and the timer of the request with that id.
\<close>

record McpClient =
  config :: RequiredConfig
  ws :: "nat option"
  eventSource :: "nat option"
  requestId :: nat
  pendingRequests :: "nat list"
  state :: ConnectionState
  reconnectTimer :: "nat option"
  serverInfo :: "json option"
  capabilities :: "json option"
  sockets :: "readyState list"
  connecting :: "nat list"
  sources :: "bool list"
  timers :: "timer list"
  timerSeq :: nat
  inflight :: "nat list"
  handshakes :: "nat list"

definition McpClient_new :: "McpClientConfig \<Rightarrow> McpClient" where
  "McpClient_new c =
     \<lparr> config = \<lparr> host = cfg_host c,
                  wsPort = (case cfg_wsPort c of None \<Rightarrow> 8765 | Some p \<Rightarrow> p),
                  httpPort = (case cfg_httpPort c of None \<Rightarrow> 8766 | Some p \<Rightarrow> p),
                  transport = (case cfg_transport c of None \<Rightarrow> Websocket | Some t \<Rightarrow> t),
                  autoReconnect = (case cfg_autoReconnect c of None \<Rightarrow> True | Some b \<Rightarrow> b),
                  reconnectInterval = (case cfg_reconnectInterval c of None \<Rightarrow> 3000 | Some n \<Rightarrow> n),
                  timeout = (case cfg_timeout c of None \<Rightarrow> 30000 | Some n \<Rightarrow> n) \<rparr>,
       ws = None, eventSource = None, requestId = 0, pendingRequests = [],
       state = Disconnected, reconnectTimer = None, serverInfo = None, capabilities = None,
       sockets = [], connecting = [], sources = [], timers = [], timerSeq = 0, inflight = [],
       handshakes = [] \<rparr>"

section \<open>Sequencing\<close>

text \<open>
  A synchronous piece of client code takes the client and returns it updated, with the
  effects it had, in order.
\<close>

type_synonym action = "McpClient \<Rightarrow> McpClient \<times> effect list"

definition seq :: "action \<Rightarrow> action \<Rightarrow> action" where
  "seq f g w = (case f w of (w1, fx1) \<Rightarrow> (case g w1 of (w2, fx2) \<Rightarrow> (w2, fx1 @ fx2)))"

fun run_all :: "action list \<Rightarrow> action" where
  "run_all [] w = (w, [])"
| "run_all (f # fs) w = seq f (run_all fs) w"

section \<open>Events and state\<close>

definition emit :: "McpClientEvent \<Rightarrow> action" where
  "emit ev w = (w, [Emit ev])"

definition setState :: "ConnectionState \<Rightarrow> action" where
  "setState st w =
     (if state w \<noteq> st then seq (\<lambda>w. (w\<lparr>state := st\<rparr>, [])) (emit (EvStateChange st)) w
      else (w, []))"

section \<open>Reconnection\<close>

definition scheduleReconnect :: action where
  "scheduleReconnect w =
     (if reconnectTimer w \<noteq> None then (w, [])
      else (w\<lparr>reconnectTimer := Some (timerSeq w),
               timers := timers w @ [ReconnectTimer (timerSeq w)],
               timerSeq := Suc (timerSeq w)\<rparr>,
            [SetTimeout (ReconnectTimer (timerSeq w)) (reconnectInterval (config w))]))"

definition stopReconnectTimer :: action where
  "stopReconnectTimer w =
     (case reconnectTimer w of
        None \<Rightarrow> (w, [])
      | Some h \<Rightarrow> (w\<lparr>timers := removeAll (ReconnectTimer h) (timers w), reconnectTimer := None\<rparr>,
                   [ClearTimeout (ReconnectTimer h)]))"

definition handleDisconnect :: "string \<Rightarrow> action" where
  "handleDisconnect reason =
     run_all [(\<lambda>w. (w\<lparr>ws := None\<rparr>, [])),
              setState Disconnected,
              emit (EvDisconnect reason),
              (\<lambda>w. if autoReconnect (config w) then scheduleReconnect w else (w, []))]"

section \<open>Requests and responses\<close>

text \<open>Socket \<open>k\<close> exists and its \<^verbatim>\<open>readyState\<close> is \<open>rs\<close>.\<close>

definition socket_is :: "McpClient \<Rightarrow> nat \<Rightarrow> readyState \<Rightarrow> bool" where
  "socket_is w k rs = (k < length (sockets w) \<and> sockets w ! k = rs)"

text \<open>
  \<^verbatim>\<open>request\<close> up to the point where it returns its promise. On the http-sse transport
  the POST is sent whatever the connection state is and its answer settles the promise
  later (\<open>request_http\<close> below); on the websocket transport the promise is rejected
  at once when there is no open socket, and otherwise the timer is set, the entry is
  stored and the envelope is sent.
\<close>

definition request :: "string \<Rightarrow> json option \<Rightarrow> action" where
  "request method params w =
     (let rid = Suc (requestId w);
          w1 = w\<lparr>requestId := rid\<rparr>
      in if transport (config w1) = HttpSse
         then (w1\<lparr>inflight := inflight w1 @ [rid]\<rparr>,
               [NewRequest rid method params, HttpPost (rid, method, params)])
         else (case ws w1 of
                 None \<Rightarrow> (w1, [NewRequest rid method params, Settle rid (Rejected WebSocketNotConnected)])
               | Some k \<Rightarrow>
                   if \<not> socket_is w1 k OPEN
                   then (w1, [NewRequest rid method params, Settle rid (Rejected WebSocketNotConnected)])
                   else (w1\<lparr>timers := timers w1 @ [RequestTimer rid],
                             pendingRequests :=
                               (if rid \<in> set (pendingRequests w1) then pendingRequests w1
                                else pendingRequests w1 @ [rid])\<rparr>,
                         [NewRequest rid method params,
                          SetTimeout (RequestTimer rid) (timeout (config w1)),
                          WsSend k (rid, method, params)])))"

text \<open>The callback of a request's timer.\<close>

definition request_timeout :: "nat \<Rightarrow> action" where
  "request_timeout rid w =
     (w\<lparr>pendingRequests := removeAll rid (pendingRequests w)\<rparr>, [Settle rid (Rejected RequestTimeout)])"

text \<open>
  What \<^verbatim>\<open>fetch\<close> gave: it failed, or it returned a status and a body; the body is
  \<open>None\<close> when it is not JSON.
\<close>

datatype http_reply = FetchRejected | HttpReply nat "json option"

text \<open>
  \<^verbatim>\<open>sendHttpRequest\<close> once \<^verbatim>\<open>fetch\<close> has settled: it throws when \<^verbatim>\<open>fetch\<close> failed,
  when the status is not 2xx and when the body is not JSON, and returns the decoded
  body otherwise.
\<close>

definition sendHttpRequest :: "http_reply \<Rightarrow> failure + json" where
  "sendHttpRequest reply =
     (case reply of
        FetchRejected \<Rightarrow> Inl FetchFailed
      | HttpReply status body \<Rightarrow>
          if \<not> (200 \<le> status \<and> status \<le> 299) then Inl (HttpError status)
          else (case body of
                  None \<Rightarrow> Inl BodyNotJson
                | Some response \<Rightarrow> Inr response))"

text \<open>
  The rest of \<^verbatim>\<open>request\<close> on the http-sse transport: the outcome of its promise,
  from the reply alone.
\<close>

definition request_http :: "http_reply \<Rightarrow> outcome" where
  "request_http reply =
     (case sendHttpRequest reply of
        Inl e \<Rightarrow> Rejected e
      | Inr JNull \<Rightarrow> Rejected TypeError
      | Inr response \<Rightarrow>
          if truthy (get_prop response ''error'')
          then Rejected (ServerError (get_prop (the (get_prop response ''error'')) ''message''))
          else Resolved (get_prop response ''result''))"

text \<open>
  The key of the pending table that \<^verbatim>\<open>message.id\<close> selects: the table's keys are the
  numbers the client allocated, so only a number equal to one of them finds an entry.
\<close>

fun pending_get :: "nat list \<Rightarrow> json option \<Rightarrow> nat option" where
  "pending_get pending (Some (JNum n)) =
     (if 0 \<le> n \<and> nat n \<in> set pending then Some (nat n) else None)"
| "pending_get pending _ = None"

text \<open>
  \<^verbatim>\<open>handleMessage\<close>, given what \<^verbatim>\<open>JSON.parse(data)\<close> returned (\<open>None\<close> when it throws).
  The operator \<^verbatim>\<open>in\<close> throws on a value that is not an object; the \<^verbatim>\<open>catch\<close> logs it.
\<close>

definition handleMessage :: "json option \<Rightarrow> action" where
  "handleMessage parsed w =
     (case parsed of
        None \<Rightarrow> (w, [ConsoleError])
      | Some (JObj kvs) \<Rightarrow>
          if map_of kvs ''id'' \<noteq> None then
            (case pending_get (pendingRequests w) (map_of kvs ''id'') of
               None \<Rightarrow> (w, [])
             | Some rid \<Rightarrow>
                 (w\<lparr>timers := removeAll (RequestTimer rid) (timers w),
                    pendingRequests := removeAll rid (pendingRequests w)\<rparr>,
                  [ClearTimeout (RequestTimer rid),
                   Settle rid
                     (if truthy (map_of kvs ''error'')
                      then Rejected (ServerError (get_prop (the (map_of kvs ''error'')) ''message''))
                      else Resolved (map_of kvs ''result''))]))
          else if map_of kvs ''method'' \<noteq> None then emit (EvNotification (JObj kvs)) w
          else (w, [])
      | Some (JArr xs) \<Rightarrow> (w, [])
      | Some v \<Rightarrow> (w, [ConsoleError]))"

section \<open>Connecting and disconnecting\<close>

definition connectWebSocket :: action where
  "connectWebSocket w =
     (w\<lparr>ws := Some (length (sockets w)), sockets := sockets w @ [CONNECTING],
        connecting := connecting w @ [length (sockets w)]\<rparr>,
      [WsNew (length (sockets w))])"

definition connectHttpSse :: action where
  "connectHttpSse w =
     (w\<lparr>eventSource := Some (length (sources w)), sources := sources w @ [False]\<rparr>,
      [SseNew (length (sources w))])"

text \<open>\<^verbatim>\<open>connect\<close> up to its first \<^verbatim>\<open>await\<close>.\<close>

definition connect :: action where
  "connect w =
     (if state w = Connected then (w, [ConnectThrows AlreadyConnected])
      else seq (setState Connecting)
               (if transport (config w) = Websocket then connectWebSocket else connectHttpSse) w)"

definition initialize_params :: json where
  "initialize_params =
     JObj [(''protocolVersion'', JStr ''2024-11-05''),
           (''capabilities'', JObj []),
           (''clientInfo'', JObj [(''name'', JStr ''@anode/mcp-client''), (''version'', JStr ''1.0.0'')])]"

text \<open>
  \<^verbatim>\<open>connect\<close> after the transport has opened: it calls \<^verbatim>\<open>initialize\<close> and awaits the
  request it made.
\<close>

definition initialize :: action where
  "initialize =
     seq (request ''initialize'' (Some initialize_params))
         (\<lambda>w. (w\<lparr>handshakes := handshakes w @ [requestId w]\<rparr>, []))"

text \<open>The \<^verbatim>\<open>catch\<close> block of \<^verbatim>\<open>connect\<close>.\<close>

definition connect_failed :: "failure \<Rightarrow> action" where
  "connect_failed e =
     run_all [setState Errored, emit (EvError e), (\<lambda>w. (w, [ConnectThrows e]))]"

text \<open>\<^verbatim>\<open>connect\<close> after \<^verbatim>\<open>initialize\<close> has resolved with \<open>r\<close>.\<close>

definition connect_resolved :: "json option \<Rightarrow> action" where
  "connect_resolved r =
     (case r of
        None \<Rightarrow> connect_failed TypeError
      | Some JNull \<Rightarrow> connect_failed TypeError
      | Some result \<Rightarrow>
          run_all [(\<lambda>w. (w\<lparr>serverInfo := get_prop result ''serverInfo'',
                            capabilities := get_prop result ''capabilities''\<rparr>, [])),
                   setState Connected,
                   emit EvConnect,
                   (\<lambda>w. (w, [ConnectReturns result]))])"

definition close_ws :: action where
  "close_ws w =
     (case ws w of
        None \<Rightarrow> (w, [])
      | Some k \<Rightarrow>
          (w\<lparr>ws := None,
             sockets := (sockets w)[k := (if sockets w ! k = CLOSED then CLOSED else CLOSING)]\<rparr>,
           [WsClose k]))"

definition close_eventSource :: action where
  "close_eventSource w =
     (case eventSource w of
        None \<Rightarrow> (w, [])
      | Some k \<Rightarrow> (w\<lparr>eventSource := None\<rparr>, [SseClose k]))"

text \<open>The loop of \<^verbatim>\<open>disconnect\<close> over the entries of the pending table.\<close>

fun reject_pending :: "nat list \<Rightarrow> action" where
  "reject_pending [] w = (w, [])"
| "reject_pending (rid # ids) w =
     seq (\<lambda>w. (w\<lparr>timers := removeAll (RequestTimer rid) (timers w)\<rparr>,
               [ClearTimeout (RequestTimer rid), Settle rid (Rejected ClientDisconnected)]))
         (reject_pending ids) w"

text \<open>The loop, followed by \<^verbatim>\<open>this.pendingRequests.clear()\<close>.\<close>

definition reject_all_pending :: action where
  "reject_all_pending =
     seq (\<lambda>w. reject_pending (pendingRequests w) w) (\<lambda>w. (w\<lparr>pendingRequests := []\<rparr>, []))"

definition disconnect :: action where
  "disconnect =
     run_all [stopReconnectTimer,
              close_ws,
              close_eventSource,
              reject_all_pending,
              setState Disconnected,
              emit (EvDisconnect ''Client initiated'')]"

section \<open>The tool-call facade\<close>

text \<open>
  The result of \<^verbatim>\<open>tools/call\<close> at the type \<^verbatim>\<open>callTool\<close> declares for it:
  \<^verbatim>\<open>{ content: Array<{ type: string; text?: string; data?: string }> }\<close>, where the
  code allows \<^verbatim>\<open>content\<close> to be absent.
\<close>

record content_item =
  item_type :: string
  item_text :: "string option"
  item_data :: "string option"

record tool_result =
  content :: "content_item list option"

datatype tool_value = Decoded json | Literal string | Envelope tool_result

text \<open>\<^verbatim>\<open>result.content?.[0]\<close>\<close>

definition first_content :: "tool_result \<Rightarrow> content_item option" where
  "first_content result =
     (case content result of
        None \<Rightarrow> None
      | Some [] \<Rightarrow> None
      | Some (c # cs) \<Rightarrow> Some c)"

text \<open>
  What \<^verbatim>\<open>callTool\<close> returns for the result of its request. \<^verbatim>\<open>JSON.parse\<close> belongs to
  the runtime and is a parameter: \<open>JSON_parse t\<close> is \<open>None\<close> when it throws. The test
  \<^verbatim>\<open>content.text\<close> fails for an absent text and for the empty string.
\<close>

definition callTool_unwrap :: "(string \<Rightarrow> json option) \<Rightarrow> tool_result \<Rightarrow> tool_value" where
  "callTool_unwrap JSON_parse result =
     (case first_content result of
        None \<Rightarrow> Envelope result
      | Some c \<Rightarrow>
          if item_type c = ''text'' then
            (case item_text c of
               None \<Rightarrow> Envelope result
             | Some t \<Rightarrow>
                 if t = [] then Envelope result
                 else (case JSON_parse t of
                         Some v \<Rightarrow> Decoded v
                       | None \<Rightarrow> Literal t))
          else Envelope result)"

text \<open>The request \<^verbatim>\<open>callTool\<close> makes, and its result once the request has settled.\<close>

definition callTool_request :: "string \<Rightarrow> json option \<Rightarrow> action" where
  "callTool_request name args =
     request ''tools/call''
       (Some (JObj ((''name'', JStr name) #
                    (case args of None \<Rightarrow> [] | Some a \<Rightarrow> [(''arguments'', a)]))))"

definition callTool :: "(string \<Rightarrow> json option) \<Rightarrow> failure + tool_result \<Rightarrow> failure + tool_value" where
  "callTool JSON_parse settled =
     (case settled of
        Inl e \<Rightarrow> Inl e
      | Inr result \<Rightarrow> Inr (callTool_unwrap JSON_parse result))"

section \<open>The client over time\<close>

text \<open>
  The client runs on one thread: between two \<^verbatim>\<open>await\<close>s its code runs to the end
  before anything else happens. An event is a call by the embedding program or a
  callback of the runtime; \<open>handler\<close> is the code that runs for it, enabled only when
  the runtime can deliver the event: a timer fires if it is set, a socket opens if it
  is connecting and reports an error or its closure if it is not closed yet, a POST is
  answered if it is awaiting its answer. The promise of \<^verbatim>\<open>connectWebSocket\<close> or
  \<^verbatim>\<open>connectHttpSse\<close> settles on the first open or error of its socket or stream, and
  later ones leave it alone. The reason of \<open>WsError\<close> is that of the closure which
  comes in the same turn when the socket had not opened; an open socket that reports
  an error reports its closure later, as an event of its own. Handlers registered with \<^verbatim>\<open>on\<close> are observers: they do
  not call back into the client while it emits.
\<close>

datatype event =
    CallConnect
  | CallDisconnect
  | CallRequest string "json option"
  | WsOpen nat
  | WsError nat string
  | WsMessage nat "json option"
  | WsClosed nat string
  | SseOpen nat
  | SseError nat
  | SseMessage nat "json option"
  | HttpReplied nat http_reply
  | TimeoutFires nat
  | ReconnectFires nat

definition set_readyState :: "nat \<Rightarrow> readyState \<Rightarrow> action" where
  "set_readyState k rs w = (w\<lparr>sockets := (sockets w)[k := rs]\<rparr>, [])"

definition settle_socket :: "nat \<Rightarrow> action" where
  "settle_socket k w = (w\<lparr>connecting := removeAll k (connecting w)\<rparr>, [])"

definition settle_source :: "nat \<Rightarrow> action" where
  "settle_source k w = (w\<lparr>sources := (sources w)[k := True]\<rparr>, [])"

text \<open>
  A socket that fails before it has opened. Its error listener rejects the promise of
  \<^verbatim>\<open>connectWebSocket\<close>; the socket closes in the same turn, so its close listener runs
  \<^verbatim>\<open>handleDisconnect\<close> with the reason of the closure; and only then does the call of
  \<^verbatim>\<open>connect\<close> that awaited the promise go on, in its \<^verbatim>\<open>catch\<close> block.
\<close>

definition socket_failed :: "nat \<Rightarrow> string \<Rightarrow> action" where
  "socket_failed k reason =
     run_all [settle_socket k,
              set_readyState k CLOSED,
              handleDisconnect reason,
              connect_failed SocketError]"

definition timer_fired :: "timer \<Rightarrow> action" where
  "timer_fired t w = (w\<lparr>timers := removeAll t (timers w)\<rparr>, [])"

fun handler :: "event \<Rightarrow> action" where
  "handler CallConnect w = connect w"
| "handler CallDisconnect w = disconnect w"
| "handler (CallRequest method params) w = request method params w"
| "handler (WsOpen k) w =
     (if socket_is w k CONNECTING
      then seq (set_readyState k OPEN)
             (\<lambda>w. if k \<in> set (connecting w) then seq (settle_socket k) initialize w else (w, [])) w
      else (w, []))"
| "handler (WsError k reason) w =
     (if k < length (sockets w) \<and> sockets w ! k \<noteq> CLOSED
      then seq (set_readyState k CLOSING)
             (\<lambda>w. if k \<in> set (connecting w) then socket_failed k reason w else (w, [])) w
      else (w, []))"
| "handler (WsMessage k parsed) w =
     (if k < length (sockets w) then handleMessage parsed w else (w, []))"
| "handler (WsClosed k reason) w =
     (if k < length (sockets w) \<and> sockets w ! k \<noteq> CLOSED
      then seq (set_readyState k CLOSED) (handleDisconnect reason) w
      else (w, []))"
| "handler (SseOpen k) w =
     (if k < length (sources w) \<and> \<not> sources w ! k then seq (settle_source k) initialize w
      else (w, []))"
| "handler (SseError k) w =
     (if k < length (sources w) \<and> \<not> sources w ! k
      then seq (settle_source k) (connect_failed SseConnectionFailed) w
      else (w, []))"
| "handler (SseMessage k parsed) w =
     (if k < length (sources w) then handleMessage parsed w else (w, []))"
| "handler (HttpReplied rid reply) w =
     (if rid \<in> set (inflight w)
      then (w\<lparr>inflight := removeAll rid (inflight w)\<rparr>, [Settle rid (request_http reply)])
      else (w, []))"
| "handler (TimeoutFires rid) w =
     (if RequestTimer rid \<in> set (timers w)
      then seq (timer_fired (RequestTimer rid)) (request_timeout rid) w
      else (w, []))"
| "handler (ReconnectFires h) w =
     (if ReconnectTimer h \<in> set (timers w)
      then seq (seq (timer_fired (ReconnectTimer h)) (\<lambda>w. (w\<lparr>reconnectTimer := None\<rparr>, []))) connect w
      else (w, []))"

text \<open>
  When the promise of an \<^verbatim>\<open>initialize\<close> request settles, the call of \<^verbatim>\<open>connect\<close> that
  awaits it goes on, after the code that settled the promise has finished.
\<close>

fun resume_connects :: "effect list \<Rightarrow> action" where
  "resume_connects [] w = (w, [])"
| "resume_connects (Settle rid oc # fx) w =
     (if rid \<in> set (handshakes w)
      then seq (\<lambda>w. (w\<lparr>handshakes := removeAll rid (handshakes w)\<rparr>, []))
             (seq (case oc of Resolved r \<Rightarrow> connect_resolved r | Rejected e \<Rightarrow> connect_failed e)
                  (resume_connects fx)) w
      else resume_connects fx w)"
| "resume_connects (e # fx) w = resume_connects fx w"

definition step :: "event \<Rightarrow> action" where
  "step e w = (case handler e w of (w1, fx1) \<Rightarrow>
                 (case resume_connects fx1 w1 of (w2, fx2) \<Rightarrow> (w2, fx1 @ fx2)))"

fun run :: "event list \<Rightarrow> action" where
  "run [] w = (w, [])"
| "run (e # es) w = seq (step e) (run es) w"

text \<open>What a list of effects settled, allocated, announced and scheduled.\<close>

fun settlements :: "effect list \<Rightarrow> (nat \<times> outcome) list" where
  "settlements [] = []"
| "settlements (Settle rid oc # fx) = (rid, oc) # settlements fx"
| "settlements (e # fx) = settlements fx"

fun request_ids :: "effect list \<Rightarrow> nat list" where
  "request_ids [] = []"
| "request_ids (NewRequest rid method params # fx) = rid # request_ids fx"
| "request_ids (e # fx) = request_ids fx"

fun state_changes :: "effect list \<Rightarrow> ConnectionState list" where
  "state_changes [] = []"
| "state_changes (Emit (EvStateChange st) # fx) = st # state_changes fx"
| "state_changes (e # fx) = state_changes fx"

fun reconnects_scheduled :: "effect list \<Rightarrow> nat list" where
  "reconnects_scheduled [] = []"
| "reconnects_scheduled (SetTimeout (ReconnectTimer h) ms # fx) = h # reconnects_scheduled fx"
| "reconnects_scheduled (e # fx) = reconnects_scheduled fx"

fun reconnect_timers :: "timer list \<Rightarrow> nat list" where
  "reconnect_timers [] = []"
| "reconnect_timers (ReconnectTimer h # ts) = h # reconnect_timers ts"
| "reconnect_timers (t # ts) = reconnect_timers ts"

fun request_timers :: "timer list \<Rightarrow> nat list" where
  "request_timers [] = []"
| "request_timers (RequestTimer rid # ts) = rid # request_timers ts"
| "request_timers (t # ts) = request_timers ts"

section \<open>Properties kept along every run\<close>

text \<open>
  A relation between a client, the effects of some code and the client afterwards is
  \<open>composable\<close> when it holds of doing nothing and of doing one thing after another;
  an action \<open>keeps\<close> it when every call of the action satisfies it.
  \<open>keeps_primitives R\<close> lists the pieces the client's code is made of.
\<close>

definition composable :: "(McpClient \<Rightarrow> effect list \<Rightarrow> McpClient \<Rightarrow> bool) \<Rightarrow> bool" where
  "composable R = ((\<forall>w. R w [] w) \<and> (\<forall>w a w1 b w2. R w a w1 \<longrightarrow> R w1 b w2 \<longrightarrow> R w (a @ b) w2))"

definition keeps :: "(McpClient \<Rightarrow> effect list \<Rightarrow> McpClient \<Rightarrow> bool) \<Rightarrow> action \<Rightarrow> bool" where
  "keeps R f = (\<forall>w. R w (snd (f w)) (fst (f w)))"

definition keeps_primitives :: "(McpClient \<Rightarrow> effect list \<Rightarrow> McpClient \<Rightarrow> bool) \<Rightarrow> bool" where
  "keeps_primitives R =
     (keeps R (emit EvConnect) \<and>
      (\<forall>reason. keeps R (emit (EvDisconnect reason))) \<and>
      (\<forall>e. keeps R (emit (EvError e))) \<and>
      (\<forall>st. keeps R (setState st)) \<and>
      keeps R scheduleReconnect \<and>
      keeps R stopReconnectTimer \<and>
      keeps R (\<lambda>w. (w\<lparr>ws := None\<rparr>, [])) \<and>
      (\<forall>method params. keeps R (request method params)) \<and>
      keeps R (\<lambda>w. (w\<lparr>handshakes := handshakes w @ [requestId w]\<rparr>, [])) \<and>
      (\<forall>parsed. keeps R (handleMessage parsed)) \<and>
      keeps R connectWebSocket \<and>
      keeps R connectHttpSse \<and>
      (\<forall>e. keeps R (\<lambda>w. (w, [ConnectThrows e]))) \<and>
      (\<forall>v. keeps R (\<lambda>w. (w, [ConnectReturns v]))) \<and>
      (\<forall>a b. keeps R (\<lambda>w. (w\<lparr>serverInfo := a, capabilities := b\<rparr>, []))) \<and>
      keeps R close_ws \<and>
      keeps R close_eventSource \<and>
      keeps R reject_all_pending \<and>
      (\<forall>k rs. keeps R (set_readyState k rs)) \<and>
      (\<forall>k. keeps R (settle_socket k)) \<and>
      (\<forall>k. keeps R (settle_source k)) \<and>
      (\<forall>rid. keeps R (\<lambda>w. (w\<lparr>handshakes := removeAll rid (handshakes w)\<rparr>, []))) \<and>
      (\<forall>rid reply. keeps R (handler (HttpReplied rid reply))) \<and>
      (\<forall>rid. keeps R (handler (TimeoutFires rid))) \<and>
      (\<forall>h. keeps R (\<lambda>w. if ReconnectTimer h \<in> set (timers w)
                          then seq (timer_fired (ReconnectTimer h)) (\<lambda>w. (w\<lparr>reconnectTimer := None\<rparr>, [])) w
                          else (w, []))))"

text \<open>
  Request ids: what a piece of code allocates are the numbers following the counter
  it started from, in order.
\<close>

definition ids_in_order :: "McpClient \<Rightarrow> effect list \<Rightarrow> McpClient \<Rightarrow> bool" where
  "ids_in_order w fx w' =
     (requestId w \<le> requestId w' \<and> request_ids fx = [Suc (requestId w) ..< Suc (requestId w')])"

text \<open>
  State changes: every state announced differs from the state before it, and the
  client is in the state announced last.
\<close>

definition state_announced :: "McpClient \<Rightarrow> effect list \<Rightarrow> McpClient \<Rightarrow> bool" where
  "state_announced w fx w' =
     (distinct_adj (state w # state_changes fx) \<and> last (state w # state_changes fx) = state w')"

text \<open>A property of the client that holds afterwards if it held before.\<close>

definition preserved :: "(McpClient \<Rightarrow> bool) \<Rightarrow> McpClient \<Rightarrow> effect list \<Rightarrow> McpClient \<Rightarrow> bool" where
  "preserved I w fx w' = (I w \<longrightarrow> I w')"

text \<open>The reconnect timers the runtime holds are the one the field refers to, if any.\<close>

definition one_reconnect_timer :: "McpClient \<Rightarrow> bool" where
  "one_reconnect_timer w =
     (reconnect_timers (timers w) = (case reconnectTimer w of None \<Rightarrow> [] | Some h \<Rightarrow> [h]))"

section \<open>A sample session\<close>

text \<open>
  A client with the default configuration, the server's answer to its handshake, and
  the client after \<^verbatim>\<open>connect()\<close> has succeeded over socket 0.
\<close>

definition sample_config :: McpClientConfig where
  "sample_config =
     \<lparr>cfg_host = ''192.168.1.100'', cfg_wsPort = None, cfg_httpPort = None, cfg_transport = None,
      cfg_autoReconnect = None, cfg_reconnectInterval = None, cfg_timeout = None\<rparr>"

definition sample_initialize_reply :: json where
  "sample_initialize_reply =
     JObj [(''jsonrpc'', JStr ''2.0''), (''id'', JNum 1),
           (''result'', JObj [(''protocolVersion'', JStr ''2024-11-05''),
                              (''serverInfo'', JObj [(''name'', JStr ''anode''), (''version'', JStr ''1.0.0'')]),
                              (''capabilities'', JObj [])])]"

definition connected_client :: McpClient where
  "connected_client =
     fst (run [CallConnect, WsOpen 0, WsMessage 0 (Some sample_initialize_reply)]
            (McpClient_new sample_config))"

text \<open>
  The connected client after its socket has closed and a new call of \<^verbatim>\<open>connect()\<close> has
  opened socket 1 and sent its handshake: a reconnect timer and a request are pending.
  And a whole session with a reconnect in it.
\<close>

definition reconnecting_client :: McpClient where
  "reconnecting_client = fst (run [WsClosed 0 ''gone'', CallConnect, WsOpen 1] connected_client)"

definition sample_reconnect_trace :: "event list" where
  "sample_reconnect_trace =
     [CallConnect, WsOpen 0, WsMessage 0 (Some sample_initialize_reply), CallRequest ''ping'' None,
      WsClosed 0 ''gone'', ReconnectFires 0, WsOpen 1, CallRequest ''ping'' None]"

text \<open>
  Settlement: the ids allocated so far are those settled, those in the pending table
  and those of the POSTs not yet answered, each once; and the request timers the
  runtime holds are those of the pending table.
\<close>

definition accounted :: "nat list \<Rightarrow> McpClient \<Rightarrow> bool" where
  "accounted settled w =
     (distinct (settled @ pendingRequests w @ inflight w) \<and>
      set (settled @ pendingRequests w @ inflight w) = {1..requestId w} \<and>
      request_timers (timers w) = pendingRequests w)"

definition settled_once :: "McpClient \<Rightarrow> effect list \<Rightarrow> McpClient \<Rightarrow> bool" where
  "settled_once w fx w' =
     (\<forall>settled. accounted settled w \<longrightarrow> accounted (settled @ map fst (settlements fx)) w')"

text \<open>
  Code that settles nothing and leaves the pending table and the unanswered POSTs
  alone.
\<close>

definition no_settlement :: "McpClient \<Rightarrow> effect list \<Rightarrow> McpClient \<Rightarrow> bool" where
  "no_settlement w fx w' =
     (pendingRequests w' = pendingRequests w \<and> inflight w' = inflight w \<and> settlements fx = [])"

text \<open>
  On the http-sse transport: the pending table is empty and no request timer runs; code
  keeps it so and rejects nothing with the timeout error.
\<close>

definition http_idle :: "McpClient \<Rightarrow> bool" where
  "http_idle w =
     (transport (config w) = HttpSse \<and> pendingRequests w = [] \<and> request_timers (timers w) = [])"

definition no_timeout_on_http :: "McpClient \<Rightarrow> effect list \<Rightarrow> McpClient \<Rightarrow> bool" where
  "no_timeout_on_http w fx w' =
     (http_idle w \<longrightarrow> http_idle w' \<and> Rejected RequestTimeout \<notin> snd ` set (settlements fx))"

text \<open>
  More of the sample session: a client on the http-sse transport and a run of it; a
  stand-in for \<^verbatim>\<open>JSON.parse\<close> that decodes the one text the examples need and
  throws on the others; a tool result with one text item, and one with an image.
\<close>

definition sample_http_config :: McpClientConfig where
  "sample_http_config = sample_config\<lparr>cfg_transport := Some HttpSse\<rparr>"

definition sample_http_trace :: "event list" where
  "sample_http_trace =
     [CallConnect, SseOpen 0, HttpReplied 1 (HttpReply 200 (Some sample_initialize_reply)),
      CallRequest ''ping'' None, HttpReplied 2 (HttpReply 500 None)]"

definition sample_parse :: "string \<Rightarrow> json option" where
  \<open>sample_parse t = (if t = ''{"a":1}'' then Some (JObj [(''a'', JNum 1)]) else None)\<close>

definition text_result :: "string \<Rightarrow> tool_result" where
  "text_result t = \<lparr>content = Some [\<lparr>item_type = ''text'', item_text = Some t, item_data = None\<rparr>]\<rparr>"

definition image_result :: tool_result where
  "image_result = \<lparr>content = Some [\<lparr>item_type = ''image'', item_text = None, item_data = Some ''aGk=''\<rparr>]\<rparr>"

section \<open>Composition\<close>

lemma fst_seq: "fst (seq f g w) = fst (g (fst (f w)))"
  by (simp add: seq_def split: prod.splits)

lemma snd_seq: "snd (seq f g w) = snd (f w) @ snd (g (fst (f w)))"
  by (simp add: seq_def split: prod.splits)

lemma keepsD: "keeps R f \<Longrightarrow> R w (snd (f w)) (fst (f w))"
  by (simp add: keeps_def)

lemma composable_refl: "composable R \<Longrightarrow> R w [] w"
  by (simp add: composable_def)

lemma composable_trans: "composable R \<Longrightarrow> R w a w1 \<Longrightarrow> R w1 b w2 \<Longrightarrow> R w (a @ b) w2"
  unfolding composable_def by blast

lemma keeps_seq: "composable R \<Longrightarrow> keeps R f \<Longrightarrow> keeps R g \<Longrightarrow> keeps R (seq f g)"
  unfolding keeps_def fst_seq snd_seq by (blast intro: composable_trans)

lemma keeps_nothing: "composable R \<Longrightarrow> keeps R (\<lambda>w. (w, []))"
  by (simp add: keeps_def composable_refl)

lemma keeps_run_all: "composable R \<Longrightarrow> list_all (keeps R) fs \<Longrightarrow> keeps R (run_all fs)"
proof (induction fs)
  case Nil
  then have "run_all [] = (\<lambda>w. (w, []))" by (simp add: fun_eq_iff)
  with Nil show ?case by (simp add: keeps_nothing)
next
  case (Cons f fs)
  have "run_all (f # fs) = seq f (run_all fs)" by (simp add: fun_eq_iff)
  with Cons show ?case by (simp add: keeps_seq)
qed

lemma keeps_if:
  "keeps R f \<Longrightarrow> keeps R g \<Longrightarrow> keeps R (\<lambda>w. if b w then f w else g w)"
  by (simp add: keeps_def)

lemma keeps_resume_connects:
  assumes c: "composable R"
    and h: "\<And>rid. keeps R (\<lambda>w. (w\<lparr>handshakes := removeAll rid (handshakes w)\<rparr>, []))"
    and r: "\<And>r. keeps R (connect_resolved r)"
    and f: "\<And>e. keeps R (connect_failed e)"
  shows "keeps R (resume_connects fx)"
proof (induction fx)
  case Nil
  have "resume_connects [] = (\<lambda>w. (w, []))" by (simp add: fun_eq_iff)
  then show ?case using c by (simp add: keeps_nothing)
next
  case (Cons x fx)
  show ?case
  proof (cases x)
    case (Settle rid oc)
    have k: "keeps R (case oc of Resolved r \<Rightarrow> connect_resolved r | Rejected e \<Rightarrow> connect_failed e)"
      using r f by (cases oc) simp_all
    have "keeps R (seq (\<lambda>w. (w\<lparr>handshakes := removeAll rid (handshakes w)\<rparr>, []))
             (seq (case oc of Resolved r \<Rightarrow> connect_resolved r | Rejected e \<Rightarrow> connect_failed e)
                  (resume_connects fx)))"
      by (intro keeps_seq c h k Cons.IH)
    then show ?thesis using Cons.IH Settle by (simp add: keeps_def)
  qed (use Cons.IH in \<open>simp_all add: keeps_def\<close>)
qed

lemma keeps_step:
  assumes c: "composable R" and h: "keeps R (handler e)" and r: "\<And>fx. keeps R (resume_connects fx)"
  shows "keeps R (step e)"
proof -
  have "R w (snd (step e w)) (fst (step e w))" for w
  proof -
    obtain w1 fx1 where a: "handler e w = (w1, fx1)" by (cases "handler e w")
    obtain w2 fx2 where b: "resume_connects fx1 w1 = (w2, fx2)" by (cases "resume_connects fx1 w1")
    have "R w fx1 w1" using keepsD [OF h, of w] a by simp
    moreover have "R w1 fx2 w2" using keepsD [of R "resume_connects fx1" w1] r b by simp
    ultimately have "R w (fx1 @ fx2) w2" by (rule composable_trans [OF c])
    then show ?thesis by (simp add: step_def a b)
  qed
  then show ?thesis by (simp add: keeps_def)
qed

lemma keeps_run:
  "composable R \<Longrightarrow> (\<And>e. keeps R (step e)) \<Longrightarrow> keeps R (run es)"
proof (induction es)
  case Nil
  have "run [] = (\<lambda>w. (w, []))" by (simp add: fun_eq_iff)
  with Nil show ?case by (simp add: keeps_nothing)
next
  case (Cons e es)
  have "run (e # es) = seq (step e) (run es)" by (simp add: fun_eq_iff)
  with Cons show ?case by (simp add: keeps_seq)
qed

lemma keeps_handleDisconnect:
  assumes c: "composable R" and p: "keeps_primitives R"
  shows "keeps R (handleDisconnect reason)"
proof -
  have "keeps R (\<lambda>w. if autoReconnect (config w) then scheduleReconnect w else (w, []))"
    using p by (intro keeps_if keeps_nothing [OF c]) (simp add: keeps_primitives_def)
  then show ?thesis
    unfolding handleDisconnect_def using p
    by (intro keeps_run_all [OF c]) (simp add: keeps_primitives_def)
qed

lemma keeps_connect:
  assumes c: "composable R" and p: "keeps_primitives R"
  shows "keeps R connect"
proof -
  have a: "keeps R (seq (setState Connecting) connectWebSocket)"
    and b: "keeps R (seq (setState Connecting) connectHttpSse)"
    using p by (auto intro!: keeps_seq [OF c] simp: keeps_primitives_def)
  have t: "keeps R (\<lambda>w. (w, [ConnectThrows AlreadyConnected]))"
    using p by (simp add: keeps_primitives_def)
  show ?thesis
    using keepsD [OF a] keepsD [OF b] keepsD [OF t]
    by (simp add: keeps_def connect_def)
qed

lemma keeps_initialize:
  assumes c: "composable R" and p: "keeps_primitives R"
  shows "keeps R initialize"
  unfolding initialize_def using p
  by (intro keeps_seq [OF c]) (simp_all add: keeps_primitives_def)

lemma keeps_connect_failed:
  assumes c: "composable R" and p: "keeps_primitives R"
  shows "keeps R (connect_failed e)"
  unfolding connect_failed_def using p
  by (intro keeps_run_all [OF c]) (simp add: keeps_primitives_def)

lemma keeps_connect_resolved:
  assumes c: "composable R" and p: "keeps_primitives R"
  shows "keeps R (connect_resolved r)"
proof -
  have "keeps R (run_all [(\<lambda>w. (w\<lparr>serverInfo := a, capabilities := b\<rparr>, [])),
                   setState Connected, emit EvConnect, (\<lambda>w. (w, [ConnectReturns result]))])" for a b result
    using p by (intro keeps_run_all [OF c]) (simp add: keeps_primitives_def)
  then show ?thesis
    using keeps_connect_failed [OF c p]
    by (simp add: connect_resolved_def split: option.splits json.splits)
qed

lemma keeps_disconnect:
  assumes c: "composable R" and p: "keeps_primitives R"
  shows "keeps R disconnect"
  unfolding disconnect_def using p
  by (intro keeps_run_all [OF c]) (simp add: keeps_primitives_def)

lemma keeps_handler:
  assumes c: "composable R" and p: "keeps_primitives R"
  shows "keeps R (handler e)"
proof -
  note parts = keeps_handleDisconnect [OF c p] keeps_connect [OF c p] keeps_initialize [OF c p]
    keeps_connect_failed [OF c p] keeps_disconnect [OF c p]
  have prim: "keeps R (set_readyState k rs)" "keeps R (settle_source k)"
    "keeps R (settle_socket k)"
    "keeps R (request m ps)" "keeps R (handleMessage parsed)"
    "keeps R (handler (HttpReplied rid reply))" "keeps R (handler (TimeoutFires rid))"
    for k rs m ps parsed rid reply
    using p by (simp_all add: keeps_primitives_def)
  have R0: "R w [] w" for w by (rule composable_refl [OF c])
  have opened: "keeps R (\<lambda>w. if k \<in> set (connecting w) then seq (settle_socket k) initialize w else (w, []))"
    for k
    by (intro keeps_if keeps_seq [OF c] keeps_nothing [OF c] prim parts)
  have sf: "keeps R (socket_failed k reason)" for k reason
    unfolding socket_failed_def
    by (intro keeps_run_all [OF c]) (simp add: prim parts)
  have failed: "keeps R (\<lambda>w. if k \<in> set (connecting w) then socket_failed k reason w else (w, []))"
    for k reason
    by (intro keeps_if keeps_nothing [OF c] sf)
  show ?thesis
  proof (cases e)
    case CallConnect
    then show ?thesis using keepsD [OF parts(2)] by (simp add: keeps_def)
  next
    case CallDisconnect
    then show ?thesis using keepsD [OF parts(5)] by (simp add: keeps_def)
  next
    case (CallRequest m ps)
    then show ?thesis using keepsD [OF prim(4)] by (simp add: keeps_def)
  next
    case (WsOpen k)
    then show ?thesis
      using keepsD [OF keeps_seq [OF c prim(1) opened]] R0 by (simp add: keeps_def)
  next
    case (WsError k reason)
    then show ?thesis
      using keepsD [OF keeps_seq [OF c prim(1) failed]] R0 by (simp add: keeps_def)
  next
    case (WsMessage k parsed)
    then show ?thesis using keepsD [OF prim(5)] R0 by (simp add: keeps_def)
  next
    case (WsClosed k reason)
    then show ?thesis
      using keepsD [OF keeps_seq [OF c prim(1) parts(1)]] R0 by (simp add: keeps_def)
  next
    case (SseOpen k)
    then show ?thesis
      using keepsD [OF keeps_seq [OF c prim(2) parts(3)]] R0 by (simp add: keeps_def)
  next
    case (SseError k)
    then show ?thesis
      using keepsD [OF keeps_seq [OF c prim(2) parts(4)]] R0 by (simp add: keeps_def)
  next
    case (SseMessage k parsed)
    then show ?thesis using keepsD [OF prim(5)] R0 by (simp add: keeps_def)
  next
    case (HttpReplied rid reply)
    then show ?thesis using prim(6) by simp
  next
    case (TimeoutFires rid)
    then show ?thesis using prim(7) by simp
  next
    case (ReconnectFires h)
    have g: "keeps R (\<lambda>w. if ReconnectTimer h \<in> set (timers w)
                          then seq (timer_fired (ReconnectTimer h)) (\<lambda>w. (w\<lparr>reconnectTimer := None\<rparr>, [])) w
                          else (w, []))"
      using p by (simp add: keeps_primitives_def)
    have "R w (snd (handler e w)) (fst (handler e w))" for w
    proof (cases "ReconnectTimer h \<in> set (timers w)")
      case True
      let ?f = "seq (timer_fired (ReconnectTimer h)) (\<lambda>w. (w\<lparr>reconnectTimer := None\<rparr>, []))"
      have "R w (snd (?f w)) (fst (?f w))" using keepsD [OF g, of w] True by simp
      moreover have "R (fst (?f w)) (snd (connect (fst (?f w)))) (fst (connect (fst (?f w))))"
        by (rule keepsD [OF parts(2)])
      ultimately have "R w (snd (?f w) @ snd (connect (fst (?f w)))) (fst (connect (fst (?f w))))"
        by (rule composable_trans [OF c])
      then show ?thesis
        using True ReconnectFires by (simp add: fst_seq [of ?f] snd_seq [of ?f])
    next
      case False
      then show ?thesis using ReconnectFires R0 by simp
    qed
    then show ?thesis by (simp add: keeps_def)
  qed
qed

lemma keeps_run_from_primitives:
  assumes c: "composable R" and p: "keeps_primitives R"
  shows "keeps R (run es)"
proof (rule keeps_run [OF c], rule keeps_step [OF c])
  show "keeps R (handler e)" for e by (rule keeps_handler [OF c p])
  show "keeps R (resume_connects fx)" for fx
    using p keeps_connect_resolved [OF c p] keeps_connect_failed [OF c p]
    by (intro keeps_resume_connects [OF c]) (simp_all add: keeps_primitives_def)
qed

section \<open>Effects of the primitives\<close>

lemmas action_defs = emit_def setState_def seq_def scheduleReconnect_def
      stopReconnectTimer_def request_def request_timeout_def handleMessage_def connectWebSocket_def
      connectHttpSse_def close_ws_def close_eventSource_def set_readyState_def settle_source_def
      settle_socket_def timer_fired_def Let_def

lemma request_ids_append: "request_ids (a @ b) = request_ids a @ request_ids b"
  by (induction a rule: request_ids.induct) simp_all

lemma state_changes_append: "state_changes (a @ b) = state_changes a @ state_changes b"
  by (induction a rule: state_changes.induct) simp_all

lemma settlements_append: "settlements (a @ b) = settlements a @ settlements b"
  by (induction a rule: settlements.induct) simp_all

lemma reconnects_scheduled_append:
  "reconnects_scheduled (a @ b) = reconnects_scheduled a @ reconnects_scheduled b"
  by (induction a rule: reconnects_scheduled.induct) simp_all

text \<open>The loop of \<^verbatim>\<open>disconnect\<close> in closed form.\<close>

lemma reject_pending_fst:
  "fst (reject_pending ids w) = w\<lparr>timers := filter (\<lambda>t. t \<notin> RequestTimer ` set ids) (timers w)\<rparr>"
proof (induction ids arbitrary: w)
  case Nil
  then show ?case by simp
next
  case (Cons rid ids)
  have "filter (\<lambda>t. t \<notin> RequestTimer ` set ids) (removeAll (RequestTimer rid) ts) =
        filter (\<lambda>t. t \<notin> RequestTimer ` set (rid # ids)) ts" for ts
    by (induction ts) auto
  with Cons show ?case by (simp add: fst_seq)
qed

lemma reject_pending_snd:
  "snd (reject_pending ids w) =
     concat (map (\<lambda>rid. [ClearTimeout (RequestTimer rid), Settle rid (Rejected ClientDisconnected)]) ids)"
  by (induction ids arbitrary: w) (simp_all add: snd_seq fst_seq)

lemma reject_all_pending_fst:
  "fst (reject_all_pending w) =
     w\<lparr>timers := filter (\<lambda>t. t \<notin> RequestTimer ` set (pendingRequests w)) (timers w),
       pendingRequests := []\<rparr>"
  by (simp add: reject_all_pending_def fst_seq reject_pending_fst)

lemma reject_all_pending_snd:
  "snd (reject_all_pending w) =
     concat (map (\<lambda>rid. [ClearTimeout (RequestTimer rid), Settle rid (Rejected ClientDisconnected)])
       (pendingRequests w))"
  by (simp add: reject_all_pending_def snd_seq reject_pending_snd)

lemma request_ids_rejections:
  "request_ids (concat (map (\<lambda>rid. [ClearTimeout (RequestTimer rid), Settle rid (Rejected ClientDisconnected)]) ids)) = []"
  by (induction ids) simp_all

section \<open>Request ids\<close>

lemma composable_ids_in_order: "composable ids_in_order"
proof -
  have "ids_in_order w (a @ b) w2" if 1: "ids_in_order w a w1" and 2: "ids_in_order w1 b w2"
    for w w1 w2 :: McpClient and a b
  proof -
    have "[Suc (requestId w)..<Suc (requestId w2)] =
          [Suc (requestId w)..<Suc (requestId w1)] @ [Suc (requestId w1)..<Suc (requestId w2)]"
      using 1 2 unfolding ids_in_order_def by (metis Suc_le_mono le_Suc_ex upt_add_eq_append)
    then show ?thesis
      using 1 2 by (simp add: ids_in_order_def request_ids_append)
  qed
  moreover have "ids_in_order w [] w" for w
    by (simp add: ids_in_order_def)
  ultimately show ?thesis
    unfolding composable_def by blast
qed

lemma primitives_ids_in_order: "keeps_primitives ids_in_order"
  unfolding keeps_primitives_def keeps_def ids_in_order_def
  by (simp add: action_defs reject_all_pending_fst reject_all_pending_snd request_ids_rejections
      split: option.splits json.splits)

text \<open>
  Claim C3. Whatever happens to a client from its construction on (calls of connect,
  disconnect and request, socket and stream events, replies, timers firing, reconnects),
  the request ids it allocates are 1, 2, 3, ... in the order of the calls of
  \<^verbatim>\<open>request\<close>, so they increase strictly and none is used twice; each call of
  \<^verbatim>\<open>request\<close>, in any state and on either transport, allocates exactly the number after
  the counter.
\<close>

theorem request_ids_count_up_from_one:
  "request_ids (snd (run es (McpClient_new c))) =
     [1 ..< Suc (requestId (fst (run es (McpClient_new c))))]
   \<and> requestId (fst (request method params w)) = Suc (requestId w)
   \<and> request_ids (snd (request method params w)) = [Suc (requestId w)]"
proof -
  have "ids_in_order (McpClient_new c) (snd (run es (McpClient_new c))) (fst (run es (McpClient_new c)))"
    by (rule keepsD [OF keeps_run_from_primitives [OF composable_ids_in_order primitives_ids_in_order]])
  then have "request_ids (snd (run es (McpClient_new c))) =
             [1 ..< Suc (requestId (fst (run es (McpClient_new c))))]"
    by (simp add: ids_in_order_def McpClient_new_def)
  then show ?thesis
    by (simp add: request_def Let_def split: option.splits)
qed

section \<open>The sample session, evaluated\<close>

lemmas eval_defs = McpClient_new_def sample_config_def sample_initialize_reply_def step_def
  action_defs connect_def initialize_def initialize_params_def connect_failed_def
  connect_resolved_def handleDisconnect_def disconnect_def reject_all_pending_def socket_is_def
  socket_failed_def

lemma connected_client_eq:
  "connected_client =
     \<lparr>config = \<lparr>host = ''192.168.1.100'', wsPort = 8765, httpPort = 8766, transport = Websocket,
                 autoReconnect = True, reconnectInterval = 3000, timeout = 30000\<rparr>,
      ws = Some 0, eventSource = None, requestId = 1, pendingRequests = [],
      state = Connected, reconnectTimer = None,
      serverInfo = Some (JObj [(''name'', JStr ''anode''), (''version'', JStr ''1.0.0'')]),
      capabilities = Some (JObj []), sockets = [OPEN], connecting = [], sources = [], timers = [],
      timerSeq = 0, inflight = [], handshakes = []\<rparr>"
  unfolding connected_client_def by (simp add: eval_defs)

lemma reconnecting_client_eq:
  "reconnecting_client =
     \<lparr>config = \<lparr>host = ''192.168.1.100'', wsPort = 8765, httpPort = 8766, transport = Websocket,
                 autoReconnect = True, reconnectInterval = 3000, timeout = 30000\<rparr>,
      ws = Some 1, eventSource = None, requestId = 2, pendingRequests = [2],
      state = Connecting, reconnectTimer = Some 0,
      serverInfo = Some (JObj [(''name'', JStr ''anode''), (''version'', JStr ''1.0.0'')]),
      capabilities = Some (JObj []), sockets = [CLOSED, OPEN], connecting = [], sources = [],
      timers = [ReconnectTimer 0, RequestTimer 2],
      timerSeq = 1, inflight = [], handshakes = [2]\<rparr>"
  unfolding reconnecting_client_def by (simp add: connected_client_eq eval_defs)

theorem request_ids_count_up_from_one_witness:
  "request_ids (snd (run sample_reconnect_trace (McpClient_new sample_config))) = [1, 2, 3, 4]"
proof -
  have "requestId (fst (run sample_reconnect_trace (McpClient_new sample_config))) = 4"
    by (simp add: sample_reconnect_trace_def eval_defs)
  then have "[1 ..< Suc (requestId (fst (run sample_reconnect_trace (McpClient_new sample_config))))]
             = [1, 2, 3, 4]"
    by (simp add: upt_rec)
  then show ?thesis
    using request_ids_count_up_from_one [of sample_reconnect_trace sample_config] by simp
qed

section \<open>State changes\<close>

lemma state_changes_rejections:
  "state_changes (concat (map (\<lambda>rid. [ClearTimeout (RequestTimer rid), Settle rid (Rejected ClientDisconnected)]) ids)) = []"
  by (induction ids) simp_all

lemma composable_state_announced: "composable state_announced"
proof -
  have "state_announced w (a @ b) w2" if 1: "state_announced w a w1" and 2: "state_announced w1 b w2"
    for w w1 w2 :: McpClient and a b
  proof (cases "state_changes b = []")
    case True
    with 1 2 show ?thesis by (simp add: state_announced_def state_changes_append)
  next
    case False
    have "distinct_adj ((state w # state_changes a) @ state_changes b)"
      using 1 2 False unfolding state_announced_def distinct_adj_append_iff
      by (auto simp: distinct_adj_Cons)
    moreover have "last ((state w # state_changes a) @ state_changes b) = state w2"
      using 2 False by (simp add: state_announced_def)
    ultimately show ?thesis by (simp add: state_announced_def state_changes_append)
  qed
  moreover have "state_announced w [] w" for w
    by (simp add: state_announced_def)
  ultimately show ?thesis
    unfolding composable_def by blast
qed

lemma primitives_state_announced: "keeps_primitives state_announced"
  unfolding keeps_primitives_def keeps_def state_announced_def
  by (simp add: action_defs reject_all_pending_fst reject_all_pending_snd state_changes_rejections
      split: option.splits json.splits)

text \<open>
  Claim C8. \<^verbatim>\<open>setState\<close> announces the new state once when it differs from the current
  one and announces nothing when it is the same. Along every run from any client, each
  announced state differs from the state before it and the client is in the state
  announced last, so there is one announcement per change of state and none without a
  change. A call of \<^verbatim>\<open>connect()\<close> on a connected client is rejected with the
  already-connected error and does nothing else: no announcement, no change.
\<close>

theorem state_change_once_per_transition:
  "state_changes (snd (setState st w)) = (if state w = st then [] else [st])
   \<and> state (fst (setState st w)) = st
   \<and> distinct_adj (state w # state_changes (snd (run es w)))
   \<and> last (state w # state_changes (snd (run es w))) = state (fst (run es w))
   \<and> (state w = Connected \<longrightarrow> step CallConnect w = (w, [ConnectThrows AlreadyConnected]))
   \<and> fixed_message AlreadyConnected = Some ''Already connected''"
proof -
  have "state_announced w (snd (run es w)) (fst (run es w))"
    by (rule keepsD [OF keeps_run_from_primitives [OF composable_state_announced primitives_state_announced]])
  then show ?thesis
    by (simp add: state_announced_def setState_def seq_def emit_def step_def connect_def)
qed

theorem state_change_once_per_transition_witness:
  "state connected_client = Connected
   \<and> step CallConnect connected_client = (connected_client, [ConnectThrows AlreadyConnected])
   \<and> state_changes (snd (run [CallConnect, WsOpen 0, WsMessage 0 (Some sample_initialize_reply),
                                CallConnect, CallDisconnect] (McpClient_new sample_config)))
       = [Connecting, Connected, Disconnected]"
proof -
  have a: "state connected_client = Connected"
    by (simp add: connected_client_eq)
  have b: "state_changes (snd (run [CallConnect, WsOpen 0, WsMessage 0 (Some sample_initialize_reply),
                                CallConnect, CallDisconnect] (McpClient_new sample_config)))
       = [Connecting, Connected, Disconnected]"
    by (simp add: eval_defs)
  have c: "step CallConnect connected_client = (connected_client, [ConnectThrows AlreadyConnected])"
    using state_change_once_per_transition [of Connected connected_client "[]"] a by blast
  from a b c show ?thesis by blast
qed

section \<open>The reconnect timer\<close>

lemma composable_preserved: "composable (preserved I)"
  by (simp add: composable_def preserved_def)

lemma reconnect_timers_append: "reconnect_timers (a @ b) = reconnect_timers a @ reconnect_timers b"
  by (induction a rule: reconnect_timers.induct) simp_all

lemma request_timers_append: "request_timers (a @ b) = request_timers a @ request_timers b"
  by (induction a rule: request_timers.induct) simp_all

lemma reconnect_timers_filter_request:
  "reconnect_timers (filter (\<lambda>t. t \<notin> RequestTimer ` A) ts) = reconnect_timers ts"
  by (induction ts rule: reconnect_timers.induct) auto

lemma reconnect_timers_removeAll_request:
  "reconnect_timers (removeAll (RequestTimer rid) ts) = reconnect_timers ts"
  by (induction ts rule: reconnect_timers.induct) auto

lemma reconnect_timers_removeAll:
  "reconnect_timers (removeAll (ReconnectTimer h) ts) = removeAll h (reconnect_timers ts)"
  by (induction ts rule: reconnect_timers.induct) auto

lemma reconnect_timer_set: "ReconnectTimer h \<in> set ts \<longleftrightarrow> h \<in> set (reconnect_timers ts)"
  by (induction ts rule: reconnect_timers.induct) auto

lemma request_timers_filter:
  "request_timers (filter (\<lambda>t. t \<notin> RequestTimer ` A) ts) = filter (\<lambda>r. r \<notin> A) (request_timers ts)"
  by (induction ts rule: request_timers.induct) auto

lemma request_timers_removeAll_reconnect:
  "request_timers (removeAll (ReconnectTimer h) ts) = request_timers ts"
  by (induction ts rule: request_timers.induct) auto

lemma request_timers_removeAll:
  "request_timers (removeAll (RequestTimer rid) ts) = removeAll rid (request_timers ts)"
  by (induction ts rule: request_timers.induct) auto

lemma request_timer_set: "RequestTimer rid \<in> set ts \<longleftrightarrow> rid \<in> set (request_timers ts)"
  by (induction ts rule: request_timers.induct) auto

lemmas timer_simps = reconnect_timers_append request_timers_append reconnect_timers_filter_request
  reconnect_timers_removeAll_request reconnect_timers_removeAll reconnect_timer_set
  request_timers_filter request_timers_removeAll_reconnect request_timers_removeAll request_timer_set

lemma primitives_one_reconnect_timer: "keeps_primitives (preserved one_reconnect_timer)"
  unfolding keeps_primitives_def keeps_def preserved_def one_reconnect_timer_def
  by (simp add: action_defs reject_all_pending_fst reject_all_pending_snd timer_simps
      split: option.splits json.splits)

text \<open>
  Claim C7. \<^verbatim>\<open>scheduleReconnect\<close> does nothing while a reconnect timer is pending; a
  transport closure schedules at most one timer, and a second closure right after it
  schedules none; and whatever happens to a client from its construction on, the
  runtime never holds more than one reconnect timer for it.
\<close>

theorem at_most_one_reconnect_timer:
  "(reconnectTimer w \<noteq> None \<longrightarrow> scheduleReconnect w = (w, []))
   \<and> length (reconnects_scheduled (snd (handleDisconnect r1 w))) \<le> 1
   \<and> reconnects_scheduled (snd (handleDisconnect r2 (fst (handleDisconnect r1 w)))) = []
   \<and> length (reconnect_timers (timers (fst (run es (McpClient_new c))))) \<le> 1"
proof -
  have "preserved one_reconnect_timer (McpClient_new c)
          (snd (run es (McpClient_new c))) (fst (run es (McpClient_new c)))"
    by (rule keepsD [OF keeps_run_from_primitives [OF composable_preserved primitives_one_reconnect_timer]])
  moreover have "one_reconnect_timer (McpClient_new c)"
    by (simp add: one_reconnect_timer_def McpClient_new_def)
  ultimately have "one_reconnect_timer (fst (run es (McpClient_new c)))"
    by (simp add: preserved_def)
  then have 4: "length (reconnect_timers (timers (fst (run es (McpClient_new c))))) \<le> 1"
    by (simp add: one_reconnect_timer_def split: option.splits)
  have 1: "reconnectTimer w \<noteq> None \<longrightarrow> scheduleReconnect w = (w, [])"
    by (simp add: scheduleReconnect_def)
  have 2: "length (reconnects_scheduled (snd (handleDisconnect r1 w))) \<le> 1"
    by (simp add: handleDisconnect_def action_defs)
  have 3: "reconnects_scheduled (snd (handleDisconnect r2 (fst (handleDisconnect r1 w)))) = []"
    by (simp add: handleDisconnect_def action_defs)
  from 1 2 3 4 show ?thesis by blast
qed

theorem at_most_one_reconnect_timer_witness:
  "reconnectTimer (fst (step (WsClosed 0 ''gone'') connected_client)) = Some 0
   \<and> reconnects_scheduled (snd (step (WsClosed 0 ''gone'') connected_client)) = [0]
   \<and> scheduleReconnect (fst (step (WsClosed 0 ''gone'') connected_client))
       = (fst (step (WsClosed 0 ''gone'') connected_client), [])
   \<and> reconnect_timers (timers (fst (run [WsClosed 0 ''gone'', CallConnect, WsOpen 1,
                                           WsClosed 1 ''gone again''] connected_client))) = [0]"
proof -
  have a: "reconnectTimer (fst (step (WsClosed 0 ''gone'') connected_client)) = Some 0"
    by (simp add: connected_client_eq eval_defs)
  have b: "reconnects_scheduled (snd (step (WsClosed 0 ''gone'') connected_client)) = [0]"
    by (simp add: connected_client_eq eval_defs)
  have c: "reconnect_timers (timers (fst (run [WsClosed 0 ''gone'', CallConnect, WsOpen 1,
                                           WsClosed 1 ''gone again''] connected_client))) = [0]"
    by (simp add: connected_client_eq eval_defs)
  have d: "scheduleReconnect (fst (step (WsClosed 0 ''gone'') connected_client))
       = (fst (step (WsClosed 0 ''gone'') connected_client), [])"
    using at_most_one_reconnect_timer [of "fst (step (WsClosed 0 ''gone'') connected_client)"] a by simp
  from a b c d show ?thesis by blast
qed

section \<open>Settlement of requests\<close>

lemma composable_settled_once: "composable settled_once"
  unfolding composable_def settled_once_def by (auto simp: settlements_append)

lemma settlements_rejections:
  "map fst (settlements (concat (map (\<lambda>rid. [ClearTimeout (RequestTimer rid), Settle rid (Rejected ClientDisconnected)]) ids))) = ids"
  by (induction ids) simp_all

lemma pending_get_Some: "pending_get pending v = Some rid \<Longrightarrow> rid \<in> set pending"
  by (cases "(pending, v)" rule: pending_get.cases) (auto split: if_splits)

lemma upto_Suc: "{1..Suc n} = insert (Suc n) {1..n}"
  by auto

lemma accounted_fresh:
  assumes "set settled \<union> (set pending \<union> set flying) = {Suc 0..n}"
  shows "Suc n \<notin> set settled \<and> Suc n \<notin> set pending \<and> Suc n \<notin> set flying"
proof -
  have "Suc n \<notin> {Suc 0..n}" by simp
  with assms show ?thesis by blast
qed

lemma settled_once_request: "keeps settled_once (request m ps)"
  unfolding keeps_def settled_once_def accounted_def
  by (auto simp: request_def Let_def timer_simps upto_Suc split: option.splits dest: accounted_fresh)

lemma settled_once_handleMessage: "keeps settled_once (handleMessage parsed)"
  unfolding keeps_def settled_once_def accounted_def
  by (auto simp: handleMessage_def emit_def timer_simps distinct_removeAll split: option.splits json.splits dest: pending_get_Some)

lemma settled_once_reject_all: "keeps settled_once reject_all_pending"
  unfolding keeps_def settled_once_def accounted_def
  by (auto simp: reject_all_pending_fst reject_all_pending_snd settlements_rejections timer_simps)

lemma settled_once_http: "keeps settled_once (handler (HttpReplied rid reply))"
  unfolding keeps_def settled_once_def accounted_def
  by (auto simp: timer_simps distinct_removeAll)

lemma settled_once_timeout: "keeps settled_once (handler (TimeoutFires rid))"
  unfolding keeps_def settled_once_def accounted_def
  by (auto simp: action_defs timer_simps distinct_removeAll)

lemma settled_once_quiet:
  assumes "\<And>w. pendingRequests (fst (f w)) = pendingRequests w \<and> inflight (fst (f w)) = inflight w \<and>
     requestId (fst (f w)) = requestId w \<and> request_timers (timers (fst (f w))) = request_timers (timers w) \<and>
     settlements (snd (f w)) = []"
  shows "keeps settled_once f"
  using assms by (simp add: keeps_def settled_once_def accounted_def)

lemma primitives_settled_once: "keeps_primitives settled_once"
  unfolding keeps_primitives_def
  by (intro conjI allI settled_once_request settled_once_handleMessage settled_once_reject_all
      settled_once_http settled_once_timeout settled_once_quiet)
    (simp_all add: action_defs timer_simps split: option.splits)

lemma composable_no_settlement: "composable no_settlement"
  by (simp add: composable_def no_settlement_def settlements_append)

lemma no_settlement_connect_failed: "keeps no_settlement (connect_failed e)"
  unfolding connect_failed_def
  by (intro keeps_run_all [OF composable_no_settlement])
    (simp add: keeps_def no_settlement_def action_defs)

lemma no_settlement_connect_resolved: "keeps no_settlement (connect_resolved r)"
proof -
  have "keeps no_settlement (run_all [(\<lambda>w. (w\<lparr>serverInfo := a, capabilities := b\<rparr>, [])),
                   setState Connected, emit EvConnect, (\<lambda>w. (w, [ConnectReturns result]))])" for a b result
    by (intro keeps_run_all [OF composable_no_settlement])
      (simp add: keeps_def no_settlement_def action_defs)
  then show ?thesis
    using no_settlement_connect_failed
    by (simp add: connect_resolved_def split: option.splits json.splits)
qed

lemma no_settlement_resume: "keeps no_settlement (resume_connects fx)"
  by (intro keeps_resume_connects [OF composable_no_settlement] no_settlement_connect_failed
      no_settlement_connect_resolved) (simp add: keeps_def no_settlement_def)

lemma pending_get_None:
  "pending_get pending (Some v) = None \<longleftrightarrow> v \<notin> (\<lambda>rid. JNum (int rid)) ` set pending"
proof (cases v)
  case (JNum n)
  show ?thesis
  proof (cases "0 \<le> n")
    case True
    then have "(JNum n \<in> (\<lambda>rid. JNum (int rid)) ` set pending) = (nat n \<in> set pending)"
      by (auto simp: image_iff intro: bexI [of _ "nat n"])
    with True JNum show ?thesis by simp
  next
    case False
    then have "JNum n \<notin> (\<lambda>rid. JNum (int rid)) ` set pending" by auto
    with False JNum show ?thesis by simp
  qed
qed auto

lemma unmatched_response_ignored:
  assumes "map_of kvs ''id'' = Some v" and "v \<notin> (\<lambda>rid. JNum (int rid)) ` set (pendingRequests w)"
  shows "handleMessage (Some (JObj kvs)) w = (w, [])"
proof -
  have "pending_get (pendingRequests w) (Some v) = None"
    using assms(2) by (simp add: pending_get_None)
  then show ?thesis by (simp add: handleMessage_def assms(1))
qed

lemma fst_step: "fst (step e w) = fst (resume_connects (snd (handler e w)) (fst (handler e w)))"
  by (simp add: step_def split: prod.splits)

lemma snd_step:
  "snd (step e w) = snd (handler e w) @ snd (resume_connects (snd (handler e w)) (fst (handler e w)))"
  by (simp add: step_def split: prod.splits)

lemma step_nothing: "handler e w = (w, []) \<Longrightarrow> step e w = (w, [])"
  by (simp add: step_def)

lemma step_unmatched_response_ignored:
  assumes "map_of kvs ''id'' = Some v" and "v \<notin> (\<lambda>rid. JNum (int rid)) ` set (pendingRequests w)"
  shows "step (WsMessage k (Some (JObj kvs))) w = (w, [])"
  using unmatched_response_ignored [OF assms] by (intro step_nothing) simp

lemma step_timeout:
  assumes "RequestTimer rid \<in> set (timers w)"
  shows "settlements (snd (step (TimeoutFires rid) w)) = [(rid, Rejected RequestTimeout)]"
    and "rid \<notin> set (pendingRequests (fst (step (TimeoutFires rid) w)))"
proof -
  let ?w1 = "fst (handler (TimeoutFires rid) w)" and ?fx1 = "snd (handler (TimeoutFires rid) w)"
  have 1: "?fx1 = [Settle rid (Rejected RequestTimeout)]" and 2: "rid \<notin> set (pendingRequests ?w1)"
    using assms by (auto simp: action_defs)
  have "no_settlement ?w1 (snd (resume_connects ?fx1 ?w1)) (fst (resume_connects ?fx1 ?w1))"
    by (rule keepsD [OF no_settlement_resume])
  then have 3: "pendingRequests (fst (resume_connects ?fx1 ?w1)) = pendingRequests ?w1"
    and 4: "settlements (snd (resume_connects ?fx1 ?w1)) = []"
    by (simp_all add: no_settlement_def)
  show "settlements (snd (step (TimeoutFires rid) w)) = [(rid, Rejected RequestTimeout)]"
    using 1 4 by (simp only: snd_step settlements_append) simp
  show "rid \<notin> set (pendingRequests (fst (step (TimeoutFires rid) w)))"
    using 2 3 by (simp only: fst_step) simp
qed

lemma run_accounted:
  "distinct (map fst (settlements (snd (run es (McpClient_new c)))) @
             pendingRequests (fst (run es (McpClient_new c))) @ inflight (fst (run es (McpClient_new c))))
   \<and> set (map fst (settlements (snd (run es (McpClient_new c)))) @
             pendingRequests (fst (run es (McpClient_new c))) @ inflight (fst (run es (McpClient_new c))))
       = {1..requestId (fst (run es (McpClient_new c)))}
   \<and> request_timers (timers (fst (run es (McpClient_new c)))) = pendingRequests (fst (run es (McpClient_new c)))"
proof -
  have "settled_once (McpClient_new c) (snd (run es (McpClient_new c))) (fst (run es (McpClient_new c)))"
    by (rule keepsD [OF keeps_run_from_primitives [OF composable_settled_once primitives_settled_once]])
  moreover have "accounted [] (McpClient_new c)"
    by (simp add: accounted_def McpClient_new_def)
  ultimately have "accounted ([] @ map fst (settlements (snd (run es (McpClient_new c))))) (fst (run es (McpClient_new c)))"
    unfolding settled_once_def by blast
  then show ?thesis by (simp add: accounted_def)
qed

text \<open>
  Claim C4. A response whose id is not the id of a pending request does nothing: the
  client is unchanged and there is no effect at all (no settlement, no event, no error
  logged), whether or not the message also carries a method. When the timer of a
  request fires, the request is rejected with the timeout error and leaves the pending
  table, and a response with its id arriving afterwards does nothing. Along every run
  from a new client the ids settled, the ids pending and the ids of the POSTs not yet
  answered are pairwise different and together are exactly the ids allocated: no
  request is settled twice, and a pending request has its timer running.
\<close>

theorem request_settles_once:
  "(map_of kvs ''id'' = Some v \<and> v \<notin> (\<lambda>rid. JNum (int rid)) ` set (pendingRequests w) \<longrightarrow>
      handleMessage (Some (JObj kvs)) w = (w, []) \<and> step (WsMessage k (Some (JObj kvs))) w = (w, []))
   \<and> (RequestTimer rid \<in> set (timers w) \<and> map_of late ''id'' = Some (JNum (int rid)) \<longrightarrow>
      settlements (snd (step (TimeoutFires rid) w)) = [(rid, Rejected RequestTimeout)] \<and>
      step (WsMessage k (Some (JObj late))) (fst (step (TimeoutFires rid) w)) =
        (fst (step (TimeoutFires rid) w), []))
   \<and> distinct (map fst (settlements (snd (run es (McpClient_new c)))) @
               pendingRequests (fst (run es (McpClient_new c))) @
               inflight (fst (run es (McpClient_new c))))
   \<and> set (map fst (settlements (snd (run es (McpClient_new c)))) @
          pendingRequests (fst (run es (McpClient_new c))) @
          inflight (fst (run es (McpClient_new c))))
       = {1..requestId (fst (run es (McpClient_new c)))}
   \<and> request_timers (timers (fst (run es (McpClient_new c)))) =
       pendingRequests (fst (run es (McpClient_new c)))"
proof -
  have late_ignored: "step (WsMessage k (Some (JObj late))) (fst (step (TimeoutFires rid) w)) =
        (fst (step (TimeoutFires rid) w), [])"
    if t: "RequestTimer rid \<in> set (timers w)" and l: "map_of late ''id'' = Some (JNum (int rid))"
  proof (rule step_unmatched_response_ignored [OF l])
    show "JNum (int rid) \<notin> (\<lambda>rid. JNum (int rid)) ` set (pendingRequests (fst (step (TimeoutFires rid) w)))"
      using step_timeout(2) [OF t] by auto
  qed
  show ?thesis
    using unmatched_response_ignored [of kvs v w] step_unmatched_response_ignored [of kvs v w k]
      step_timeout(1) [of rid w] late_ignored run_accounted [of es c]
    by blast
qed

theorem request_settles_once_witness:
  "pendingRequests (fst (step (CallRequest ''ping'' None) connected_client)) = [2]
   \<and> timers (fst (step (CallRequest ''ping'' None) connected_client)) = [RequestTimer 2]
   \<and> step (WsMessage 0 (Some (JObj [(''jsonrpc'', JStr ''2.0''), (''id'', JNum 7), (''result'', JObj [])])))
          (fst (step (CallRequest ''ping'' None) connected_client))
       = (fst (step (CallRequest ''ping'' None) connected_client), [])
   \<and> settlements (snd (step (TimeoutFires 2) (fst (step (CallRequest ''ping'' None) connected_client))))
       = [(2, Rejected RequestTimeout)]
   \<and> step (WsMessage 0 (Some (JObj [(''jsonrpc'', JStr ''2.0''), (''id'', JNum 2), (''result'', JObj [])])))
          (fst (step (TimeoutFires 2) (fst (step (CallRequest ''ping'' None) connected_client))))
       = (fst (step (TimeoutFires 2) (fst (step (CallRequest ''ping'' None) connected_client))), [])"
proof -
  let ?w = "fst (step (CallRequest ''ping'' None) connected_client)"
  have a: "pendingRequests ?w = [2]" and b: "timers ?w = [RequestTimer 2]"
    by (simp_all add: connected_client_eq eval_defs)
  have h1: "map_of [(''jsonrpc'', JStr ''2.0''), (''id'', JNum 7), (''result'', JObj [])] ''id'' = Some (JNum 7)
            \<and> JNum 7 \<notin> (\<lambda>rid. JNum (int rid)) ` set (pendingRequests ?w)"
    by (simp add: a)
  have h2: "RequestTimer 2 \<in> set (timers ?w)
            \<and> map_of [(''jsonrpc'', JStr ''2.0''), (''id'', JNum 2), (''result'', JObj [])] ''id'' = Some (JNum (int 2))"
    by (simp add: b)
  show ?thesis
    using a b h1 h2
      request_settles_once [of "[(''jsonrpc'', JStr ''2.0''), (''id'', JNum 7), (''result'', JObj [])]"
        "JNum 7" ?w 0 2 "[(''jsonrpc'', JStr ''2.0''), (''id'', JNum 2), (''result'', JObj [])]"]
    by blast
qed

section \<open>Steps and what they settle\<close>

lemma step_settlements: "settlements (snd (step e w)) = settlements (snd (handler e w))"
proof -
  have "no_settlement (fst (handler e w)) (snd (resume_connects (snd (handler e w)) (fst (handler e w))))
          (fst (resume_connects (snd (handler e w)) (fst (handler e w))))"
    by (rule keepsD [OF no_settlement_resume])
  then show ?thesis by (simp only: snd_step settlements_append no_settlement_def) simp
qed

lemma step_inflight: "inflight (fst (step e w)) = inflight (fst (handler e w))"
proof -
  have "no_settlement (fst (handler e w)) (snd (resume_connects (snd (handler e w)) (fst (handler e w))))
          (fst (resume_connects (snd (handler e w)) (fst (handler e w))))"
    by (rule keepsD [OF no_settlement_resume])
  then show ?thesis by (simp only: fst_step no_settlement_def)
qed

lemma step_pending: "pendingRequests (fst (step e w)) = pendingRequests (fst (handler e w))"
proof -
  have "no_settlement (fst (handler e w)) (snd (resume_connects (snd (handler e w)) (fst (handler e w))))
          (fst (resume_connects (snd (handler e w)) (fst (handler e w))))"
    by (rule keepsD [OF no_settlement_resume])
  then show ?thesis by (simp only: fst_step no_settlement_def)
qed

section \<open>Disconnecting\<close>

text \<open>
  Claim C5, as the code has it. \<^verbatim>\<open>disconnect()\<close> rejects every request of the pending
  table, in the table's order, with the client-disconnected error and with nothing else
  settled, and leaves the table empty (also once the calls of \<^verbatim>\<open>connect\<close> that awaited
  one of them have gone on); the timers of those requests are cleared. The requests in
  the table are those sent over the websocket: a POST of the http-sse transport that has
  not been answered has no entry, and \<^verbatim>\<open>disconnect()\<close> leaves it as it is, neither
  settled nor forgotten. A pending reconnect timer is cleared and the field reset; the
  socket and the event stream are closed if present and the fields reset; and the last
  thing it does is emit the disconnect event with the reason Client initiated.
\<close>

theorem disconnect_fails_all_pending:
  "settlements (snd (disconnect w)) = map (\<lambda>rid. (rid, Rejected ClientDisconnected)) (pendingRequests w)
   \<and> settlements (snd (step CallDisconnect w)) =
       map (\<lambda>rid. (rid, Rejected ClientDisconnected)) (pendingRequests w)
   \<and> pendingRequests (fst (disconnect w)) = []
   \<and> pendingRequests (fst (step CallDisconnect w)) = []
   \<and> filter (\<lambda>t. t \<in> RequestTimer ` set (pendingRequests w)) (timers (fst (disconnect w))) = []
   \<and> reconnectTimer (fst (disconnect w)) = None
   \<and> (case reconnectTimer w of
         None \<Rightarrow> True
       | Some h \<Rightarrow> ClearTimeout (ReconnectTimer h) \<in> set (snd (disconnect w)) \<and>
                   ReconnectTimer h \<notin> set (timers (fst (disconnect w))))
   \<and> ws (fst (disconnect w)) = None
   \<and> eventSource (fst (disconnect w)) = None
   \<and> (case ws w of None \<Rightarrow> True | Some k \<Rightarrow> WsClose k \<in> set (snd (disconnect w)))
   \<and> (case eventSource w of None \<Rightarrow> True | Some k \<Rightarrow> SseClose k \<in> set (snd (disconnect w)))
   \<and> last (snd (disconnect w)) = Emit (EvDisconnect ''Client initiated'')
   \<and> inflight (fst (disconnect w)) = inflight w
   \<and> inflight (fst (step CallDisconnect w)) = inflight w
   \<and> fixed_message ClientDisconnected = Some ''Client disconnected''"
proof -
  have s: "settlements (concat (map (\<lambda>rid. [ClearTimeout (RequestTimer rid), Settle rid (Rejected ClientDisconnected)]) ids))
           = map (\<lambda>rid. (rid, Rejected ClientDisconnected)) ids" for ids
    by (induction ids) simp_all
  have f: "filter (\<lambda>t. t \<in> RequestTimer ` A) (filter (\<lambda>t. t \<notin> RequestTimer ` A) ts) = []" for A ts
    by (induction ts) auto
  have f': "filter (\<lambda>t. t \<in> RequestTimer ` A) (filter (\<lambda>t. t \<notin> RequestTimer ` A) (removeAll x ts)) = []" for A ts x
    by (induction ts) auto
  have 1: "settlements (snd (disconnect w)) = map (\<lambda>rid. (rid, Rejected ClientDisconnected)) (pendingRequests w)"
    by (simp add: disconnect_def fst_seq snd_seq settlements_append reject_all_pending_fst
        reject_all_pending_snd s stopReconnectTimer_def close_ws_def close_eventSource_def
        setState_def emit_def split: option.splits)
  have 2: "pendingRequests (fst (disconnect w)) = []"
    by (simp add: disconnect_def fst_seq reject_all_pending_fst
        stopReconnectTimer_def close_ws_def close_eventSource_def
        setState_def emit_def split: option.splits)
  have 3: "filter (\<lambda>t. t \<in> RequestTimer ` set (pendingRequests w)) (timers (fst (disconnect w))) = []"
    by (simp add: disconnect_def fst_seq reject_all_pending_fst f f'
        stopReconnectTimer_def close_ws_def close_eventSource_def
        setState_def emit_def split: option.splits)
  have 4: "reconnectTimer (fst (disconnect w)) = None \<and> ws (fst (disconnect w)) = None
       \<and> eventSource (fst (disconnect w)) = None"
    by (simp add: disconnect_def fst_seq reject_all_pending_fst
        stopReconnectTimer_def close_ws_def close_eventSource_def
        setState_def emit_def split: option.splits)
  have 5: "(case reconnectTimer w of
         None \<Rightarrow> True
       | Some h \<Rightarrow> ClearTimeout (ReconnectTimer h) \<in> set (snd (disconnect w)) \<and>
                   ReconnectTimer h \<notin> set (timers (fst (disconnect w))))"
    by (simp add: disconnect_def fst_seq snd_seq reject_all_pending_fst
        stopReconnectTimer_def close_ws_def close_eventSource_def
        setState_def emit_def split: option.splits)
  have 6: "(case ws w of None \<Rightarrow> True | Some k \<Rightarrow> WsClose k \<in> set (snd (disconnect w)))"
    by (simp add: disconnect_def fst_seq snd_seq
        stopReconnectTimer_def close_ws_def close_eventSource_def split: option.splits)
  have 7: "(case eventSource w of None \<Rightarrow> True | Some k \<Rightarrow> SseClose k \<in> set (snd (disconnect w)))"
    by (simp add: disconnect_def fst_seq snd_seq
        stopReconnectTimer_def close_ws_def close_eventSource_def split: option.splits)
  have 8: "last (snd (disconnect w)) = Emit (EvDisconnect ''Client initiated'')"
    by (simp add: disconnect_def snd_seq emit_def)
  have 9: "settlements (snd (step CallDisconnect w)) =
       map (\<lambda>rid. (rid, Rejected ClientDisconnected)) (pendingRequests w)"
    using 1 by (simp add: step_settlements)
  have 10: "pendingRequests (fst (step CallDisconnect w)) = []"
    using 2 by (simp add: step_pending)
  have 11: "inflight (fst (disconnect w)) = inflight w"
    by (simp add: disconnect_def fst_seq reject_all_pending_fst
        stopReconnectTimer_def close_ws_def close_eventSource_def
        setState_def emit_def split: option.splits)
  have 12: "inflight (fst (step CallDisconnect w)) = inflight w"
    using 11 by (simp add: step_inflight)
  from 1 2 3 4 5 6 7 8 9 10 11 12 show ?thesis by simp
qed

theorem disconnect_fails_all_pending_witness:
  "pendingRequests reconnecting_client = [2]
   \<and> reconnectTimer reconnecting_client = Some 0
   \<and> ws reconnecting_client = Some 1
   \<and> settlements (snd (disconnect reconnecting_client)) = [(2, Rejected ClientDisconnected)]
   \<and> pendingRequests (fst (disconnect reconnecting_client)) = []
   \<and> ClearTimeout (ReconnectTimer 0) \<in> set (snd (disconnect reconnecting_client))
   \<and> ReconnectTimer 0 \<notin> set (timers (fst (disconnect reconnecting_client)))
   \<and> WsClose 1 \<in> set (snd (disconnect reconnecting_client))
   \<and> last (snd (disconnect reconnecting_client)) = Emit (EvDisconnect ''Client initiated'')"
proof -
  have a: "pendingRequests reconnecting_client = [2]"
    and b: "reconnectTimer reconnecting_client = Some 0"
    and c: "ws reconnecting_client = Some 1"
    by (simp_all add: reconnecting_client_eq)
  show ?thesis
    using a b c disconnect_fails_all_pending [of reconnecting_client] by simp
qed

text \<open>
  The claim as stated fails on the http-sse transport: the client posts a ping, which
  is outstanding but not in the pending table; \<^verbatim>\<open>disconnect()\<close> settles nothing, and
  the server's answer resolves the request afterwards.
\<close>

theorem disconnect_leaves_http_request_counterexample:
  "pendingRequests (fst (step (CallRequest ''ping'' None) (McpClient_new sample_http_config))) = []
   \<and> inflight (fst (step (CallRequest ''ping'' None) (McpClient_new sample_http_config))) = [1]
   \<and> settlements (snd (step CallDisconnect
         (fst (step (CallRequest ''ping'' None) (McpClient_new sample_http_config))))) = []
   \<and> inflight (fst (step CallDisconnect
         (fst (step (CallRequest ''ping'' None) (McpClient_new sample_http_config))))) = [1]
   \<and> settlements (snd (run [CallRequest ''ping'' None, CallDisconnect,
        HttpReplied 1 (HttpReply 200 (Some (JObj [(''jsonrpc'', JStr ''2.0''), (''id'', JNum 1), (''result'', JObj [])])))]
        (McpClient_new sample_http_config)))
       = [(1, Resolved (Some (JObj [])))]"
  by (simp add: sample_http_config_def eval_defs request_http_def sendHttpRequest_def)

section \<open>Requests without a connection\<close>

text \<open>
  Claim C9, as the code has it. On the websocket transport a request made while there
  is no socket, or while the socket is not open, is rejected at once with the
  not-connected error: an id is allocated, nothing is sent, no timer is set and the
  pending table is unchanged. On the http-sse transport there is no such check: the
  request is posted whatever the state of the connection, with no pending entry and no
  timer.
\<close>

theorem request_without_open_socket_fails:
  "(transport (config w) = Websocket \<and> (ws w = None \<or> (\<exists>k. ws w = Some k \<and> \<not> socket_is w k OPEN)) \<longrightarrow>
      request m ps w =
        (w\<lparr>requestId := Suc (requestId w)\<rparr>,
         [NewRequest (Suc (requestId w)) m ps, Settle (Suc (requestId w)) (Rejected WebSocketNotConnected)]))
   \<and> (transport (config w) = HttpSse \<longrightarrow>
        pendingRequests (fst (request m ps w)) = pendingRequests w \<and>
        timers (fst (request m ps w)) = timers w \<and>
        snd (request m ps w) = [NewRequest (Suc (requestId w)) m ps, HttpPost (Suc (requestId w), m, ps)])
   \<and> fixed_message WebSocketNotConnected = Some ''WebSocket not connected''"
  by (cases "transport (config w)") (auto simp: request_def Let_def socket_is_def)

theorem request_without_open_socket_fails_witness:
  "transport (config (McpClient_new sample_config)) = Websocket
   \<and> ws (McpClient_new sample_config) = None
   \<and> snd (request ''ping'' None (McpClient_new sample_config)) =
        [NewRequest 1 ''ping'' None, Settle 1 (Rejected WebSocketNotConnected)]
   \<and> pendingRequests (fst (request ''ping'' None (McpClient_new sample_config))) = []
   \<and> transport (config (McpClient_new sample_http_config)) = HttpSse
   \<and> snd (request ''ping'' None (McpClient_new sample_http_config)) =
       [NewRequest 1 ''ping'' None, HttpPost (1, ''ping'', None)]"
proof -
  let ?w = "McpClient_new sample_config" and ?h = "McpClient_new sample_http_config"
  have a: "transport (config ?w) = Websocket \<and> (ws ?w = None \<or> (\<exists>k. ws ?w = Some k \<and> \<not> socket_is ?w k OPEN))"
    and b: "transport (config ?h) = HttpSse"
    by (simp_all add: sample_http_config_def eval_defs)
  have r: "request ''ping'' None ?w =
        (?w\<lparr>requestId := Suc (requestId ?w)\<rparr>,
         [NewRequest (Suc (requestId ?w)) ''ping'' None,
          Settle (Suc (requestId ?w)) (Rejected WebSocketNotConnected)])"
    by (rule request_without_open_socket_fails [THEN conjunct1, THEN mp, OF a])
  have h: "pendingRequests (fst (request ''ping'' None ?h)) = pendingRequests ?h \<and>
        timers (fst (request ''ping'' None ?h)) = timers ?h \<and>
        snd (request ''ping'' None ?h) =
          [NewRequest (Suc (requestId ?h)) ''ping'' None, HttpPost (Suc (requestId ?h), ''ping'', None)]"
    by (rule request_without_open_socket_fails [THEN conjunct2, THEN conjunct1, THEN mp, OF b])
  have r1: "snd (request ''ping'' None ?w) = [NewRequest 1 ''ping'' None, Settle 1 (Rejected WebSocketNotConnected)]"
    and r2: "pendingRequests (fst (request ''ping'' None ?w)) = []"
    unfolding r by (simp_all add: McpClient_new_def)
  have h1: "snd (request ''ping'' None ?h) = [NewRequest 1 ''ping'' None, HttpPost (1, ''ping'', None)]"
    using h by (simp add: McpClient_new_def)
  have w0: "ws ?w = None" by (simp add: McpClient_new_def)
  from a b r1 r2 h1 w0 show ?thesis by simp
qed

text \<open>
  The claim as stated fails on the http-sse transport: a client that was never
  connected (no event stream, state disconnected) posts its ping, and the server's
  answer resolves it.
\<close>

theorem request_without_transport_counterexample:
  "eventSource (McpClient_new sample_http_config) = None
   \<and> state (McpClient_new sample_http_config) = Disconnected
   \<and> settlements (snd (run [CallRequest ''ping'' None,
        HttpReplied 1 (HttpReply 200 (Some (JObj [(''jsonrpc'', JStr ''2.0''), (''id'', JNum 1), (''result'', JObj [])])))]
        (McpClient_new sample_http_config)))
       = [(1, Resolved (Some (JObj [])))]"
  by (simp add: sample_http_config_def eval_defs request_http_def sendHttpRequest_def)

section \<open>Requests over HTTP\<close>

lemma composable_no_timeout_on_http: "composable no_timeout_on_http"
  unfolding composable_def no_timeout_on_http_def by (auto simp: settlements_append)

lemma request_http_not_timeout: "request_http reply \<noteq> Rejected RequestTimeout"
  by (simp add: request_http_def sendHttpRequest_def split: http_reply.splits option.splits json.splits)

lemma timeout_not_request_http: "Rejected RequestTimeout \<noteq> request_http reply"
  using request_http_not_timeout [of reply] by simp

lemma primitives_no_timeout_on_http: "keeps_primitives no_timeout_on_http"
  unfolding keeps_primitives_def keeps_def no_timeout_on_http_def http_idle_def
  by (simp add: action_defs reject_all_pending_fst reject_all_pending_snd timer_simps
      timeout_not_request_http split: option.splits json.splits)

lemma run_http_idle:
  assumes "cfg_transport c = Some HttpSse"
  shows "pendingRequests (fst (run es (McpClient_new c))) = []"
    and "request_timers (timers (fst (run es (McpClient_new c)))) = []"
    and "Rejected RequestTimeout \<notin> snd ` set (settlements (snd (run es (McpClient_new c))))"
proof -
  have "no_timeout_on_http (McpClient_new c) (snd (run es (McpClient_new c))) (fst (run es (McpClient_new c)))"
    by (rule keepsD [OF keeps_run_from_primitives [OF composable_no_timeout_on_http primitives_no_timeout_on_http]])
  moreover have "http_idle (McpClient_new c)"
    using assms by (simp add: http_idle_def McpClient_new_def)
  ultimately have "http_idle (fst (run es (McpClient_new c))) \<and>
      Rejected RequestTimeout \<notin> snd ` set (settlements (snd (run es (McpClient_new c))))"
    by (simp add: no_timeout_on_http_def)
  then show "pendingRequests (fst (run es (McpClient_new c))) = []"
    and "request_timers (timers (fst (run es (McpClient_new c)))) = []"
    and "Rejected RequestTimeout \<notin> snd ` set (settlements (snd (run es (McpClient_new c))))"
    by (simp_all add: http_idle_def)
qed

text \<open>
  Claim C10. On the http-sse transport \<^verbatim>\<open>request\<close> allocates an id and posts the
  envelope; it stores no pending entry and sets no timer. When the reply comes the
  promise is settled with what \<open>request_http\<close> makes of the reply alone, which is
  never the timeout error: for a JSON object body it is the HTTP error when the status
  is not 2xx, else the server's error when the body has one, else the body's result.
  Along every run of a client configured for http-sse the pending table stays empty, no
  request timer runs and no request is rejected with the timeout error.
\<close>

theorem http_requests_never_pending_nor_timed_out:
  "(transport (config w) = HttpSse \<longrightarrow>
      request m ps w =
        (w\<lparr>requestId := Suc (requestId w), inflight := inflight w @ [Suc (requestId w)]\<rparr>,
         [NewRequest (Suc (requestId w)) m ps, HttpPost (Suc (requestId w), m, ps)]))
   \<and> settlements (snd (step (HttpReplied rid reply) w)) =
       (if rid \<in> set (inflight w) then [(rid, request_http reply)] else [])
   \<and> request_http reply \<noteq> Rejected RequestTimeout
   \<and> request_http (HttpReply status (Some (JObj kvs))) =
       (if \<not> (200 \<le> status \<and> status \<le> 299) then Rejected (HttpError status)
        else if truthy (map_of kvs ''error'')
             then Rejected (ServerError (get_prop (the (map_of kvs ''error'')) ''message''))
             else Resolved (map_of kvs ''result''))
   \<and> (cfg_transport c = Some HttpSse \<longrightarrow>
        pendingRequests (fst (run es (McpClient_new c))) = [] \<and>
        request_timers (timers (fst (run es (McpClient_new c)))) = [] \<and>
        Rejected RequestTimeout \<notin> snd ` set (settlements (snd (run es (McpClient_new c)))))"
proof -
  have 1: "transport (config w) = HttpSse \<longrightarrow>
      request m ps w =
        (w\<lparr>requestId := Suc (requestId w), inflight := inflight w @ [Suc (requestId w)]\<rparr>,
         [NewRequest (Suc (requestId w)) m ps, HttpPost (Suc (requestId w), m, ps)])"
    by (simp add: request_def Let_def)
  have 2: "settlements (snd (step (HttpReplied rid reply) w)) =
       (if rid \<in> set (inflight w) then [(rid, request_http reply)] else [])"
    by (simp add: step_settlements)
  have 3: "request_http (HttpReply status (Some (JObj kvs))) =
       (if \<not> (200 \<le> status \<and> status \<le> 299) then Rejected (HttpError status)
        else if truthy (map_of kvs ''error'')
             then Rejected (ServerError (get_prop (the (map_of kvs ''error'')) ''message''))
             else Resolved (map_of kvs ''result''))"
    by (simp add: request_http_def sendHttpRequest_def)
  from 1 2 3 request_http_not_timeout [of reply] run_http_idle [of c es]
  show ?thesis by blast
qed

theorem http_requests_never_pending_nor_timed_out_witness:
  "transport (config (McpClient_new sample_http_config)) = HttpSse
   \<and> snd (request ''ping'' None (McpClient_new sample_http_config)) =
        [NewRequest 1 ''ping'' None, HttpPost (1, ''ping'', None)]
   \<and> pendingRequests (fst (request ''ping'' None (McpClient_new sample_http_config))) = []
   \<and> cfg_transport sample_http_config = Some HttpSse
   \<and> pendingRequests (fst (run sample_http_trace (McpClient_new sample_http_config))) = []
   \<and> Rejected RequestTimeout \<notin> snd ` set (settlements (snd (run sample_http_trace (McpClient_new sample_http_config))))
   \<and> settlements (snd (run sample_http_trace (McpClient_new sample_http_config)))
       = [(1, Resolved (get_prop sample_initialize_reply ''result'')), (2, Rejected (HttpError 500))]"
proof -
  let ?w = "McpClient_new sample_http_config"
  have a: "transport (config ?w) = HttpSse"
    and b: "cfg_transport sample_http_config = Some HttpSse"
    by (simp_all add: sample_http_config_def eval_defs)
  have c: "settlements (snd (run sample_http_trace ?w))
       = [(1, Resolved (get_prop sample_initialize_reply ''result'')), (2, Rejected (HttpError 500))]"
    by (simp add: sample_http_trace_def sample_http_config_def eval_defs request_http_def sendHttpRequest_def)
  have r: "request ''ping'' None ?w =
        (?w\<lparr>requestId := Suc (requestId ?w), inflight := inflight ?w @ [Suc (requestId ?w)]\<rparr>,
         [NewRequest (Suc (requestId ?w)) ''ping'' None, HttpPost (Suc (requestId ?w), ''ping'', None)])"
    by (rule http_requests_never_pending_nor_timed_out [THEN conjunct1, THEN mp, OF a])
  have t: "pendingRequests (fst (run sample_http_trace ?w)) = [] \<and>
        request_timers (timers (fst (run sample_http_trace ?w))) = [] \<and>
        Rejected RequestTimeout \<notin> snd ` set (settlements (snd (run sample_http_trace ?w)))"
    by (rule http_requests_never_pending_nor_timed_out [THEN conjunct2, THEN conjunct2, THEN conjunct2, THEN conjunct2, THEN mp, OF b])
  have r1: "snd (request ''ping'' None ?w) = [NewRequest 1 ''ping'' None, HttpPost (1, ''ping'', None)]"
    and r2: "pendingRequests (fst (request ''ping'' None ?w)) = []"
    unfolding r by (simp_all add: McpClient_new_def)
  from a b c r1 r2 t show ?thesis by simp
qed

section \<open>Unwrapping a tool result\<close>

text \<open>
  Claim C6, as the code has it. When the first content item has type text and a text
  that is not empty, \<^verbatim>\<open>callTool\<close> returns the decoded text if \<^verbatim>\<open>JSON.parse\<close> accepts it
  and the text itself if not. In every other case it returns the result envelope
  unchanged: the first item is not of type text, its text is absent or empty, or there
  is no first item. A failure of the request is passed on.
\<close>

theorem callTool_unwraps_text_content:
  "(first_content r = Some c \<and> item_type c = ''text'' \<and> item_text c = Some t \<and> t \<noteq> [] \<and> JSON_parse t = Some v \<longrightarrow>
      callTool JSON_parse (Inr r) = Inr (Decoded v))
   \<and> (first_content r = Some c \<and> item_type c = ''text'' \<and> item_text c = Some t \<and> t \<noteq> [] \<and> JSON_parse t = None \<longrightarrow>
      callTool JSON_parse (Inr r) = Inr (Literal t))
   \<and> (first_content r = Some c \<and> item_type c \<noteq> ''text'' \<longrightarrow> callTool JSON_parse (Inr r) = Inr (Envelope r))
   \<and> (first_content r = Some c \<and> (item_text c = None \<or> item_text c = Some []) \<longrightarrow>
      callTool JSON_parse (Inr r) = Inr (Envelope r))
   \<and> (first_content r = None \<longrightarrow> callTool JSON_parse (Inr r) = Inr (Envelope r))
   \<and> callTool JSON_parse (Inl e) = Inl e"
  by (auto simp: callTool_def callTool_unwrap_def)

theorem callTool_unwraps_text_content_witness:
  \<open>callTool sample_parse (Inr (text_result ''{"a":1}'')) = Inr (Decoded (JObj [(''a'', JNum 1)]))
   \<and> callTool sample_parse (Inr (text_result ''not json'')) = Inr (Literal ''not json'')
   \<and> callTool sample_parse (Inr image_result) = Inr (Envelope image_result)
   \<and> callTool sample_parse (Inr (text_result [])) = Inr (Envelope (text_result []))
   \<and> callTool sample_parse (Inr \<lparr>content = Some []\<rparr>) = Inr (Envelope \<lparr>content = Some []\<rparr>)\<close>
proof -
  let ?item = "\<lambda>t. \<lparr>item_type = ''text'', item_text = Some t, item_data = None\<rparr>"
  let ?image = "\<lparr>item_type = ''image'', item_text = None, item_data = Some ''aGk=''\<rparr>"
  have h1: \<open>first_content (text_result ''{"a":1}'') = Some (?item ''{"a":1}'') \<and>
            item_type (?item ''{"a":1}'') = ''text'' \<and> item_text (?item ''{"a":1}'') = Some ''{"a":1}'' \<and>
            ''{"a":1}'' \<noteq> [] \<and> sample_parse ''{"a":1}'' = Some (JObj [(''a'', JNum 1)])\<close>
    by (simp add: text_result_def first_content_def sample_parse_def)
  have h2: "first_content (text_result ''not json'') = Some (?item ''not json'') \<and>
            item_type (?item ''not json'') = ''text'' \<and> item_text (?item ''not json'') = Some ''not json'' \<and>
            ''not json'' \<noteq> [] \<and> sample_parse ''not json'' = None"
    by (simp add: text_result_def first_content_def sample_parse_def)
  have h3: "first_content image_result = Some ?image \<and> item_type ?image \<noteq> ''text''"
    by (simp add: first_content_def image_result_def)
  have h4: "first_content (text_result []) = Some (?item []) \<and>
            (item_text (?item []) = None \<or> item_text (?item []) = Some [])"
    by (simp add: text_result_def first_content_def)
  have h5: "first_content \<lparr>content = Some []\<rparr> = None"
    by (simp add: first_content_def)
  note t = callTool_unwraps_text_content [where JSON_parse = sample_parse]
  have 1: \<open>callTool sample_parse (Inr (text_result ''{"a":1}'')) = Inr (Decoded (JObj [(''a'', JNum 1)]))\<close>
    by (rule t [THEN conjunct1, THEN mp, OF h1])
  have 2: "callTool sample_parse (Inr (text_result ''not json'')) = Inr (Literal ''not json'')"
    by (rule t [THEN conjunct2, THEN conjunct1, THEN mp, OF h2])
  have 3: "callTool sample_parse (Inr image_result) = Inr (Envelope image_result)"
    by (rule t [THEN conjunct2, THEN conjunct2, THEN conjunct1, THEN mp, OF h3])
  have 4: "callTool sample_parse (Inr (text_result [])) = Inr (Envelope (text_result []))"
    by (rule t [THEN conjunct2, THEN conjunct2, THEN conjunct2, THEN conjunct1, THEN mp, OF h4])
  have 5: "callTool sample_parse (Inr \<lparr>content = Some []\<rparr>) = Inr (Envelope \<lparr>content = Some []\<rparr>)"
    by (rule t [THEN conjunct2, THEN conjunct2, THEN conjunct2, THEN conjunct2, THEN conjunct1, THEN mp, OF h5])
  from 1 2 3 4 5 show ?thesis by (intro conjI)
qed

text \<open>
  The claim as stated fails for a text item whose text is the empty string: it is
  textual and not valid JSON, yet the envelope is returned, not the string.
\<close>

theorem callTool_empty_text_counterexample:
  "sample_parse [] = None
   \<and> callTool sample_parse (Inr (text_result [])) = Inr (Envelope (text_result []))
   \<and> callTool sample_parse (Inr (text_result [])) \<noteq> Inr (Literal [])"
  by (simp add: callTool_def callTool_unwrap_def text_result_def first_content_def sample_parse_def)

section \<open>A refused connection\<close>

text \<open>
  A socket that fails before it has opened: the close listener runs first and the
  \<^verbatim>\<open>catch\<close> block of \<^verbatim>\<open>connect\<close> after it, so the client ends in the error state, having
  announced connecting, disconnected and error, with a reconnect scheduled.
\<close>

lemma refused_connection:
  "state (fst (run [CallConnect, WsError 0 []] (McpClient_new sample_config))) = Errored
   \<and> snd (run [CallConnect, WsError 0 []] (McpClient_new sample_config)) =
       [Emit (EvStateChange Connecting), WsNew 0,
        Emit (EvStateChange Disconnected), Emit (EvDisconnect []), SetTimeout (ReconnectTimer 0) 3000,
        Emit (EvStateChange Errored), Emit (EvError SocketError), ConnectThrows SocketError]"
  by (simp add: eval_defs)

section \<open>Transport closure\<close>

text \<open>
  Claim C1, evaluated. The connected sample client sends a ping (request 2) and, before
  any answer, socket 0 reports its closure. The client becomes disconnected, announces
  it and schedules the reconnect after 3000 ms; but request 2 stays in the pending table
  and nothing is settled. In any state, \<^verbatim>\<open>handleDisconnect\<close> leaves the pending table as
  it is and settles nothing.
\<close>

theorem closure_leaves_pending_requests:
  "state connected_client = Connected
   \<and> pendingRequests (fst (step (CallRequest ''ping'' None) connected_client)) = [2]
   \<and> state (fst (step (WsClosed 0 ''gone'') (fst (step (CallRequest ''ping'' None) connected_client)))) = Disconnected
   \<and> pendingRequests (fst (step (WsClosed 0 ''gone'') (fst (step (CallRequest ''ping'' None) connected_client)))) = [2]
   \<and> snd (step (WsClosed 0 ''gone'') (fst (step (CallRequest ''ping'' None) connected_client)))
       = [Emit (EvStateChange Disconnected), Emit (EvDisconnect ''gone''), SetTimeout (ReconnectTimer 0) 3000]
   \<and> settlements (snd (step (WsClosed 0 ''gone'') (fst (step (CallRequest ''ping'' None) connected_client)))) = []
   \<and> pendingRequests (fst (handleDisconnect reason w)) = pendingRequests w
   \<and> settlements (snd (handleDisconnect reason w)) = []"
proof -
  have "pendingRequests (fst (handleDisconnect reason w)) = pendingRequests w
        \<and> settlements (snd (handleDisconnect reason w)) = []"
    by (simp add: handleDisconnect_def action_defs)
  then show ?thesis
    by (simp add: connected_client_eq eval_defs)
qed

text \<open>
  Claim C2, evaluated. The caller disconnects the connected sample client: the
  reconnect timer is cleared and socket 0 is closing. The socket then reports its
  closure, and the handler schedules a reconnect after 3000 ms although the caller asked
  for the disconnect. In any state, with auto-reconnect on, a closure observed after
  \<^verbatim>\<open>disconnect()\<close> sets the reconnect timer.
\<close>

theorem close_after_disconnect_schedules_reconnect:
  "reconnectTimer (fst (step CallDisconnect connected_client)) = None
   \<and> timers (fst (step CallDisconnect connected_client)) = []
   \<and> sockets (fst (step CallDisconnect connected_client)) = [CLOSING]
   \<and> snd (step (WsClosed 0 ''Client disconnect'') (fst (step CallDisconnect connected_client)))
       = [Emit (EvDisconnect ''Client disconnect''), SetTimeout (ReconnectTimer 0) 3000]
   \<and> reconnectTimer (fst (step (WsClosed 0 ''Client disconnect'') (fst (step CallDisconnect connected_client)))) = Some 0
   \<and> timers (fst (step (WsClosed 0 ''Client disconnect'') (fst (step CallDisconnect connected_client)))) = [ReconnectTimer 0]
   \<and> reconnectTimer (fst (handleDisconnect reason (fst (disconnect w)))) =
       (if autoReconnect (config w) then Some (timerSeq w) else None)"
proof -
  have "reconnectTimer (fst (handleDisconnect reason (fst (disconnect w)))) =
          (if autoReconnect (config w) then Some (timerSeq w) else None)"
    by (simp add: handleDisconnect_def disconnect_def fst_seq reject_all_pending_fst
        stopReconnectTimer_def close_ws_def close_eventSource_def setState_def emit_def
        scheduleReconnect_def split: option.splits)
  then show ?thesis
    by (simp add: connected_client_eq eval_defs)
qed

end
